theory Spec2Isabelle
  imports Complex_Main
begin

section \<open>Numbers of the solver\<close>

text \<open>
  The solver of \<^verbatim>\<open>ampy/SelfAveragingLMMSEVAMPSolver.py\<close> computes on numpy
  float64 values. A value is modelled as a finite real number, one of the two
  infinities, or NaN. Every arithmetic operation on finite values computes the exact
  real result and rounds it to the nearest double, ties to even, with gradual underflow
  and with overflow to an infinity, as IEEE 754 prescribes. The special values follow
  IEEE 754 as numpy applies it: a division by zero does not raise, it gives an infinity
  or NaN (numpy only warns), and NaN spreads through every operation. Zero carries no
  sign: a zero denominator counts as \<open>+0\<close>.
\<close>

datatype fl = Fin real | PInf | NInf | NaN

definition signed_inf :: "real \<Rightarrow> fl" where
  "signed_inf a = (if 0 < a then PInf else if a < 0 then NInf else NaN)"

text \<open>The nearest integer, a tie going to the even one.\<close>

definition round_even :: "real \<Rightarrow> int" where
  "round_even z =
     (let f = \<lfloor>z\<rfloor> in
      if z - of_int f < 1 / 2 then f
      else if 1 / 2 < z - of_int f then f + 1
      else if even f then f else f + 1)"

text \<open>
  The binary exponent of a nonzero number, not below that of the smallest normal double,
  and the spacing of the doubles around it: 53 significant bits.
\<close>

definition expo :: "real \<Rightarrow> int" where
  "expo x = max \<lfloor>log 2 \<bar>x\<bar>\<rfloor> (- 1022)"

definition ulp :: "real \<Rightarrow> real" where
  "ulp x = 2 powr of_int (expo x - 52)"

text \<open>Rounding to 53 significant bits, the exponent not yet bounded above.\<close>

definition round53 :: "real \<Rightarrow> real" where
  "round53 x = (if x = 0 then 0 else of_int (round_even (x / ulp x)) * ulp x)"

text \<open>
  Rounding to a double: a rounded magnitude of \<open>2^1024\<close> or more overflows to the
  infinity of the sign. A real number is a double when rounding leaves it as it is.
\<close>

definition round64 :: "real \<Rightarrow> fl" where
  "round64 x = (if 2 ^ 1024 \<le> \<bar>round53 x\<bar> then signed_inf x else Fin (round53 x))"

definition representable :: "real \<Rightarrow> bool" where
  "representable x = (round64 x = Fin x)"

instantiation fl :: "{plus,minus,uminus,times,inverse,abs,sgn}"
begin

fun uminus_fl :: "fl \<Rightarrow> fl" where
  "uminus_fl (Fin a) = Fin (- a)"
| "uminus_fl PInf = NInf"
| "uminus_fl NInf = PInf"
| "uminus_fl NaN = NaN"

fun plus_fl :: "fl \<Rightarrow> fl \<Rightarrow> fl" where
  "plus_fl NaN b = NaN"
| "plus_fl a NaN = NaN"
| "plus_fl (Fin a) (Fin b) = round64 (a + b)"
| "plus_fl PInf NInf = NaN"
| "plus_fl NInf PInf = NaN"
| "plus_fl PInf b = PInf"
| "plus_fl NInf b = NInf"
| "plus_fl (Fin a) b = b"

definition minus_fl :: "fl \<Rightarrow> fl \<Rightarrow> fl" where
  "minus_fl a b = a + (- b)"

fun times_fl :: "fl \<Rightarrow> fl \<Rightarrow> fl" where
  "times_fl NaN b = NaN"
| "times_fl a NaN = NaN"
| "times_fl (Fin a) (Fin b) = round64 (a * b)"
| "times_fl (Fin a) PInf = signed_inf a"
| "times_fl (Fin a) NInf = signed_inf (- a)"
| "times_fl PInf (Fin b) = signed_inf b"
| "times_fl NInf (Fin b) = signed_inf (- b)"
| "times_fl PInf PInf = PInf"
| "times_fl PInf NInf = NInf"
| "times_fl NInf PInf = NInf"
| "times_fl NInf NInf = PInf"

fun divide_fl :: "fl \<Rightarrow> fl \<Rightarrow> fl" where
  "divide_fl NaN b = NaN"
| "divide_fl a NaN = NaN"
| "divide_fl (Fin a) (Fin b) = (if b = 0 then signed_inf a else round64 (a / b))"
| "divide_fl (Fin a) PInf = Fin 0"
| "divide_fl (Fin a) NInf = Fin 0"
| "divide_fl PInf (Fin b) = (if b < 0 then NInf else PInf)"
| "divide_fl NInf (Fin b) = (if b < 0 then PInf else NInf)"
| "divide_fl a b = NaN"

definition inverse_fl :: "fl \<Rightarrow> fl" where
  "inverse_fl a = divide (Fin 1) a"

fun abs_fl :: "fl \<Rightarrow> fl" where
  "abs_fl (Fin a) = Fin \<bar>a\<bar>"
| "abs_fl PInf = PInf"
| "abs_fl NInf = PInf"
| "abs_fl NaN = NaN"

fun sgn_fl :: "fl \<Rightarrow> fl" where
  "sgn_fl (Fin a) = Fin (sgn a)"
| "sgn_fl PInf = Fin 1"
| "sgn_fl NInf = Fin (- 1)"
| "sgn_fl NaN = NaN"

instance ..

end

text \<open>\<^verbatim>\<open>np.heaviside(x1, x2)\<close>: 0 below zero, \<open>x2\<close> at zero, 1 above, NaN at NaN.\<close>

fun heaviside :: "fl \<Rightarrow> fl \<Rightarrow> fl" where
  "heaviside (Fin a) h = (if a < 0 then Fin 0 else if a = 0 then h else Fin 1)"
| "heaviside PInf h = Fin 1"
| "heaviside NInf h = Fin 0"
| "heaviside NaN h = NaN"

text \<open>The comparison \<^verbatim>\<open>a < b\<close>: false as soon as one side is NaN.\<close>

fun fl_less :: "fl \<Rightarrow> fl \<Rightarrow> bool" where
  "fl_less NaN b = False"
| "fl_less a NaN = False"
| "fl_less (Fin a) (Fin b) = (a < b)"
| "fl_less a PInf = (a \<noteq> PInf)"
| "fl_less NInf b = (b \<noteq> NInf)"
| "fl_less a b = False"

text \<open>\<^verbatim>\<open>np.maximum\<close> and \<^verbatim>\<open>np.minimum\<close>, which hand NaN through.\<close>

definition fl_maximum :: "fl \<Rightarrow> fl \<Rightarrow> fl" where
  "fl_maximum a b = (if a = NaN \<or> b = NaN then NaN else if fl_less a b then b else a)"

definition fl_minimum :: "fl \<Rightarrow> fl \<Rightarrow> fl" where
  "fl_minimum a b = (if a = NaN \<or> b = NaN then NaN else if fl_less b a then b else a)"

text \<open>\<^verbatim>\<open>np.clip(a, a_min, a_max)\<close> is \<^verbatim>\<open>minimum(maximum(a, a_min), a_max)\<close>.\<close>

definition clip :: "fl \<Rightarrow> fl \<Rightarrow> fl \<Rightarrow> fl" where
  "clip a a_min a_max = fl_minimum (fl_maximum a a_min) a_max"

fun fl_sqrt :: "fl \<Rightarrow> fl" where
  "fl_sqrt (Fin a) = (if a < 0 then NaN else round64 (sqrt a))"
| "fl_sqrt PInf = PInf"
| "fl_sqrt NInf = NaN"
| "fl_sqrt NaN = NaN"

text \<open>
  The two bounds that \<^verbatim>\<open>solve\<close> clips to: the doubles that the literals
  \<^verbatim>\<open>1e-9\<close> and \<^verbatim>\<open>1e9\<close> denote.
\<close>

definition a_min_bound :: fl where
  "a_min_bound = round64 (1 / 10 ^ 9)"

definition a_max_bound :: fl where
  "a_max_bound = round64 (10 ^ 9)"

section \<open>Vectors and matrices\<close>

text \<open>
  A one-dimensional array is a list, a two-dimensional array the list of its rows (all
  of one length).
\<close>

type_synonym vec = "fl list"

type_synonym mat = "fl list list"

primrec vsum :: "vec \<Rightarrow> fl" where
  "vsum [] = Fin 0"
| "vsum (a # as) = a + vsum as"

text \<open>\<^verbatim>\<open>np.mean\<close>: the sum over the number of entries; NaN on an empty array.\<close>

definition mean :: "vec \<Rightarrow> fl" where
  "mean v = vsum v / Fin (real (length v))"

definition dot :: "vec \<Rightarrow> vec \<Rightarrow> fl" where
  "dot u v = vsum (map2 (*) u v)"

definition matvec :: "mat \<Rightarrow> vec \<Rightarrow> vec" where
  "matvec m v = map (\<lambda>row. dot row v) m"

definition matmul :: "mat \<Rightarrow> mat \<Rightarrow> mat" where
  "matmul a b = map (\<lambda>row. map (\<lambda>col. dot row col) (transpose b)) a"

text \<open>\<^verbatim>\<open>np.linalg.norm\<close> of a vector.\<close>

definition linalg_norm :: "vec \<Rightarrow> fl" where
  "linalg_norm v = fl_sqrt (vsum (map (\<lambda>a. \<bar>a\<bar> * \<bar>a\<bar>) v))"

definition has_shape :: "mat \<Rightarrow> nat \<Rightarrow> nat \<Rightarrow> bool" where
  "has_shape m r c = (length m = r \<and> list_all (\<lambda>row. length row = c) m)"

text \<open>
  A zero matrix of \<open>r\<close> rows and \<open>c\<close> columns whose leading diagonal entries
  \<open>(i, i)\<close>, \<open>i < length v\<close>, are then assigned \<open>f (v ! i)\<close>: the loop of the
  constructor over \<^verbatim>\<open>enumerate(s)\<close>.
\<close>

definition diag_assign :: "nat \<Rightarrow> nat \<Rightarrow> (fl \<Rightarrow> fl) \<Rightarrow> vec \<Rightarrow> mat" where
  "diag_assign r c f v =
     map (\<lambda>i. map (\<lambda>j. if i = j \<and> i < length v then f (v ! i) else Fin 0) [0..<c]) [0..<r]"

section \<open>The solver object\<close>

text \<open>
  The fields of \<^verbatim>\<open>SelfAveragingLMMSEVAMPSolver\<close>, under the names of the source:
  the regularisation strength \<open>l\<close>, the coefficient \<open>dumping\<close>, the copies of the
  inputs, the factorisation, and the two groups of iteration variables.
\<close>

record solver =
  l :: fl
  dumping :: fl
  A :: mat
  y :: vec
  M :: nat
  N :: nat
  s :: vec
  s2 :: vec
  U :: mat
  VT :: mat
  V :: mat
  S :: mat
  S_inv :: mat
  y_tilde :: vec
  d :: vec
  x_hat_1 :: vec
  alpha_1 :: fl
  eta_1 :: fl
  gamma_2 :: fl
  r_2 :: vec
  x_hat_2 :: vec
  alpha_2 :: fl
  eta_2 :: fl
  gamma_1 :: fl
  r_1 :: vec

datatype error = LinAlgError | ValueError

text \<open>
  What the constructor has asked of the linear-algebra library so far: the only entry
  is the call of \<^verbatim>\<open>np.linalg.svd\<close>, with the matrix it was given.
\<close>

datatype call = Svd mat

text \<open>
  The five samples the constructor draws with \<^verbatim>\<open>np.random.normal(0.0, 1.0, self.N)\<close>,
  in the order of the source; each has length \<open>N\<close>.
\<close>

record draws =
  draw_d :: vec
  draw_x_hat_1 :: vec
  draw_r_2 :: vec
  draw_x_hat_2 :: vec
  draw_r_1 :: vec

definition ncols :: "mat \<Rightarrow> nat" where
  "ncols m = (case m of [] \<Rightarrow> 0 | row # _ \<Rightarrow> length row)"

text \<open>
  \<^verbatim>\<open>__init__\<close>. The library function \<^verbatim>\<open>np.linalg.svd\<close> is a parameter: it
  raises \<^verbatim>\<open>LinAlgError\<close> or returns \<open>(u, s, vh)\<close>, for an \<open>M \<times> N\<close> matrix
  of shapes \<open>M \<times> M\<close>, \<open>min M N\<close> and \<open>N \<times> N\<close>. The model follows the source
  line by line: the shape is read, the factorisation is called, \<open>s\<close> is padded with
  zeros, \<open>S\<close> and \<open>S_inv\<close> are filled on the diagonal (\<open>S_inv\<close> with
  \<^verbatim>\<open>1.0 / s[i]\<close>, whatever \<^verbatim>\<open>s[i]\<close> is), and only then the product
  \<^verbatim>\<open>self.S_inv @ self.U.T @ self.y\<close> meets \<open>y\<close>: numpy's matrix product raises
  \<^verbatim>\<open>ValueError\<close> when the length of \<open>y\<close> is not the column count \<open>M\<close> of
  \<^verbatim>\<open>self.S_inv @ self.U.T\<close>. The result is the list of library calls made, and the
  error or the object.
\<close>

definition init ::
  "(mat \<Rightarrow> error + mat \<times> vec \<times> mat) \<Rightarrow> draws \<Rightarrow> mat \<Rightarrow> vec \<Rightarrow> fl \<Rightarrow> fl
     \<Rightarrow> call list \<times> (error + solver)" where
  "init svd rnd A_arg y_arg regularization_strength dumping_coefficient =
     (let m = length A_arg; n = ncols A_arg in
      case svd A_arg of
        Inl e \<Rightarrow> ([Svd A_arg], Inl e)
      | Inr (u, sv, vh) \<Rightarrow>
          (let s_pad = sv @ replicate (n - length sv) (Fin 0);
               S_inv_mat = diag_assign n m (\<lambda>val. Fin 1 / val) sv;
               S_inv_UT = matmul S_inv_mat (transpose u)
           in if length y_arg \<noteq> m then ([Svd A_arg], Inl ValueError)
              else ([Svd A_arg], Inr
                \<lparr> l = regularization_strength,
                  dumping = dumping_coefficient,
                  A = A_arg,
                  y = y_arg,
                  M = m,
                  N = n,
                  s = s_pad,
                  s2 = map2 (*) s_pad s_pad,
                  U = u,
                  VT = vh,
                  V = transpose vh,
                  S = diag_assign m n (\<lambda>val. val) sv,
                  S_inv = S_inv_mat,
                  y_tilde = matvec S_inv_UT y_arg,
                  d = draw_d rnd,
                  x_hat_1 = draw_x_hat_1 rnd,
                  alpha_1 = Fin 1,
                  eta_1 = Fin 1,
                  gamma_2 = Fin 1,
                  r_2 = draw_r_2 rnd,
                  x_hat_2 = draw_x_hat_2 rnd,
                  alpha_2 = Fin 1,
                  eta_2 = Fin 1,
                  gamma_1 = Fin 1,
                  r_1 = draw_r_1 rnd \<rparr>)))"

section \<open>The update rules\<close>

text \<open>
  The private methods \<^verbatim>\<open>__update_*\<close>, each reading the fields it reads in the source.
  The decorator \<^verbatim>\<open>numba.jit(parallel=True, nogil=True)\<close> on the methods asks for speed
  only and is taken to leave their results as they are.
\<close>

definition update_x_hat_1 :: "solver \<Rightarrow> vec" where
  "update_x_hat_1 self =
     (let v1 = map (\<lambda>r. r - l self / gamma_1 self * sgn r) (r_1 self);
          v2 = map (\<lambda>r. heaviside (\<bar>r\<bar> - l self / gamma_1 self) (Fin (1 / 2))) (r_1 self)
      in map2 (*) v1 v2)"

definition update_alpha_1 :: "solver \<Rightarrow> fl" where
  "update_alpha_1 self =
     (let v1 = map (\<lambda>r. heaviside (\<bar>r\<bar> - l self / gamma_1 self) (Fin (1 / 2))) (r_1 self)
      in mean v1)"

definition update_eta_1 :: "solver \<Rightarrow> fl" where
  "update_eta_1 self = gamma_1 self / alpha_1 self"

definition update_gamma_2 :: "solver \<Rightarrow> fl" where
  "update_gamma_2 self = eta_1 self - gamma_1 self"

definition update_r_2 :: "solver \<Rightarrow> vec" where
  "update_r_2 self =
     map2 (\<lambda>x r. (eta_1 self * x - gamma_1 self * r) / gamma_2 self) (x_hat_1 self) (r_1 self)"

definition update_x_hat_2 :: "solver \<Rightarrow> vec" where
  "update_x_hat_2 self =
     (let v1 = r_2 self;
          v2 = matvec (V self) (map2 (*) (d self) (y_tilde self));
          v3 = matvec (V self) (map2 (*) (d self) (matvec (VT self) (r_2 self)))
      in map2 (-) (map2 (+) v1 v2) v3)"

definition update_alpha_2 :: "solver \<Rightarrow> fl" where
  "update_alpha_2 self = Fin 1 - mean (d self)"

definition update_eta_2 :: "solver \<Rightarrow> fl" where
  "update_eta_2 self = gamma_2 self / alpha_2 self"

definition update_gamma_1 :: "solver \<Rightarrow> fl" where
  "update_gamma_1 self = eta_2 self - gamma_2 self"

definition update_r_1 :: "solver \<Rightarrow> vec" where
  "update_r_1 self =
     map2 (\<lambda>x r. (eta_2 self * x - gamma_2 self * r) / gamma_1 self) (x_hat_2 self) (r_2 self)"

definition update_d :: "solver \<Rightarrow> vec" where
  "update_d self = map (\<lambda>v. v / (v + gamma_2 self)) (s2 self)"

section \<open>The iteration\<close>

text \<open>
  \<^verbatim>\<open>utils.update_dumping(old_x, new_x, dumping_coefficient)\<close> lives in
  \<^verbatim>\<open>ampy/utils.py\<close>, which is not among the sources. It is a parameter \<open>ud\<close> of the
  model, taking the old value, the new value and the coefficient; on arrays it is
  applied entry by entry.
\<close>

type_synonym dumping_fn = "fl \<Rightarrow> fl \<Rightarrow> fl \<Rightarrow> fl"

text \<open>
  One pass through the body of the loop of \<^verbatim>\<open>solve\<close>, from the denoising step to the
  assignment of \<open>r_1\<close>; every assignment to a field is one update of the record, in the
  order of the source.
\<close>

definition iteration :: "dumping_fn \<Rightarrow> solver \<Rightarrow> solver" where
  "iteration ud self0 =
     (let new_x_hat_1 = update_x_hat_1 self0;
          new_alpha_1 = update_alpha_1 self0;
          self1 = self0\<lparr>x_hat_1 :=
                    map2 (\<lambda>old_x new_x. ud old_x new_x (dumping self0)) (x_hat_1 self0) new_x_hat_1\<rparr>;
          self2 = self1\<lparr>alpha_1 := new_alpha_1\<rparr>;
          new_eta_1 = update_eta_1 self2;
          self3 = self2\<lparr>eta_1 :=
                    clip (ud (eta_1 self2) new_eta_1 (dumping self2)) a_min_bound a_max_bound\<rparr>;
          new_gamma_2 = update_gamma_2 self3;
          self4 = self3\<lparr>gamma_2 := clip new_gamma_2 a_min_bound a_max_bound\<rparr>;
          new_r_2 = update_r_2 self4;
          self5 = self4\<lparr>r_2 := new_r_2\<rparr>;
          self6 = self5\<lparr>d := update_d self5\<rparr>;
          new_x_hat_2 = update_x_hat_2 self6;
          new_alpha_2 = update_alpha_2 self6;
          self7 = self6\<lparr>x_hat_2 := new_x_hat_2\<rparr>;
          self8 = self7\<lparr>alpha_2 := new_alpha_2\<rparr>;
          new_eta_2 = update_eta_2 self8;
          self9 = self8\<lparr>eta_2 := new_eta_2\<rparr>;
          new_gamma_1 = update_gamma_1 self9;
          self10 = self9\<lparr>gamma_1 := clip new_gamma_1 a_min_bound a_max_bound\<rparr>;
          new_r_1 = update_r_1 self10
      in self10\<lparr>r_1 := new_r_1\<rparr>)"

section \<open>The driver\<close>

text \<open>
  A call of \<^verbatim>\<open>print\<close> is the list of its arguments. The local variables of
  \<^verbatim>\<open>solve\<close>, the object and the lines printed so far make up the state of a run.
\<close>

datatype item = Txt string | Flo fl | Intg int

record run =
  obj :: solver
  convergence_flag :: bool
  abs_diff :: fl
  iteration_index :: int
  printed :: "item list list"

text \<open>
  The body of the \<^verbatim>\<open>for\<close> loop at index \<open>i\<close>; the boolean says whether the
  \<^verbatim>\<open>break\<close> was reached.
\<close>

definition loop_body :: "dumping_fn \<Rightarrow> fl \<Rightarrow> bool \<Rightarrow> int \<Rightarrow> run \<Rightarrow> bool \<times> run" where
  "loop_body ud tolerance message i rn =
     (let old_x_hat_1 = x_hat_1 (obj rn);
          self' = iteration ud (obj rn);
          diff = linalg_norm (map2 (-) old_x_hat_1 (x_hat_1 self'))
                   / fl_sqrt (Fin (real (N self')));
          rn1 = rn\<lparr>obj := self', abs_diff := diff, iteration_index := i\<rparr>
      in if fl_less diff tolerance
         then (True, rn1\<lparr>convergence_flag := True,
                 printed := printed rn1 @
                   (if message
                    then [[Txt ''requirement satisfied''],
                          [Txt ''abs_diff: '', Flo diff],
                          [Txt ''abs_estimate: '', Flo (linalg_norm (x_hat_1 self'))],
                          [Txt ''iteration number = '', Intg i],
                          []]
                    else [])\<rparr>)
         else (False, rn1))"

text \<open>The \<^verbatim>\<open>for\<close> loop over the indices of \<^verbatim>\<open>range(max_iteration)\<close>.\<close>

fun for_range :: "dumping_fn \<Rightarrow> fl \<Rightarrow> bool \<Rightarrow> int list \<Rightarrow> run \<Rightarrow> run" where
  "for_range ud tolerance message [] rn = rn"
| "for_range ud tolerance message (i # rest) rn =
     (case loop_body ud tolerance message i rn of
        (True, rn') \<Rightarrow> rn'
      | (False, rn') \<Rightarrow> for_range ud tolerance message rest rn')"

text \<open>The lines printed when the loop ends without convergence.\<close>

definition not_converged_lines :: "run \<Rightarrow> item list list" where
  "not_converged_lines rn =
     [[Txt ''does not converged.''],
      [Txt ''abs_diff='', Flo (abs_diff rn)],
      [Txt ''estimate norm='', Flo (linalg_norm (x_hat_1 (obj rn)))]] @
     (if linalg_norm (x_hat_1 (obj rn)) \<noteq> Fin 0
      then [[Txt ''relative diff= '', Flo (abs_diff rn / linalg_norm (x_hat_1 (obj rn)))]]
      else []) @
     [[Txt ''iteration num='', Intg (iteration_index rn + 1)],
      []]"

text \<open>
  \<^verbatim>\<open>solve\<close>: the value returned, the object as the call leaves it, and the lines
  printed. \<^verbatim>\<open>range(max_iteration)\<close> is empty for \<open>max_iteration \<le> 0\<close>. No
  statement of \<^verbatim>\<open>solve\<close> raises on numpy floats, so the model has no error result.
\<close>

definition solve :: "dumping_fn \<Rightarrow> int \<Rightarrow> fl \<Rightarrow> bool \<Rightarrow> solver \<Rightarrow> vec \<times> solver \<times> item list list" where
  "solve ud max_iteration tolerance message self0 =
     (let rn0 = \<lparr>obj = self0, convergence_flag = False, abs_diff = Fin 9999,
                 iteration_index = 9999, printed = []\<rparr>;
          rn = for_range ud tolerance message (map int [0..<nat max_iteration]) rn0;
          out = (if convergence_flag rn then printed rn else printed rn @ not_converged_lines rn)
      in (x_hat_1 (obj rn), obj rn, out))"

section \<open>Notions used in the statements\<close>

text \<open>A run without the lines it has printed.\<close>

definition run_core :: "run \<Rightarrow> solver \<times> bool \<times> fl \<times> int" where
  "run_core rn = (obj rn, convergence_flag rn, abs_diff rn, iteration_index rn)"



text \<open>The closed interval from \<^verbatim>\<open>1e-9\<close> to \<^verbatim>\<open>1e9\<close>.\<close>

fun in_bounds :: "fl \<Rightarrow> bool" where
  "in_bounds (Fin a) = (1 / 10 ^ 9 \<le> a \<and> a \<le> 10 ^ 9)"
| "in_bounds PInf = False"
| "in_bounds NInf = False"
| "in_bounds NaN = False"

text \<open>
  The support fraction in the words of the specification: the mean over the coordinates
  of the indicator of \<open>|r_1 i| > l / gamma_1\<close>, which is 1 or 0.
\<close>

definition indicator_above :: "fl \<Rightarrow> fl \<Rightarrow> fl" where
  "indicator_above a t = (if fl_less t a then Fin 1 else Fin 0)"

definition support_fraction :: "solver \<Rightarrow> fl" where
  "support_fraction self =
     mean (map (\<lambda>r. indicator_above \<bar>r\<bar> (l self / gamma_1 self)) (r_1 self))"

text \<open>
  Modelled from the spec: \<^verbatim>\<open>utils.update_dumping\<close>, whose file \<^verbatim>\<open>ampy/utils.py\<close> is
  not among the sources. The specification gives it as a convex combination of the old
  and the new value with the coefficient as parameter, and leaves open which of the two
  the coefficient weighs; the flag chooses. It stands for the parameter \<open>ud\<close> where a
  statement needs a concrete function.
\<close>

definition update_dumping :: "bool \<Rightarrow> dumping_fn" where
  "update_dumping weigh_old old_x new_x dumping_coefficient =
     (if weigh_old
      then dumping_coefficient * old_x + (Fin 1 - dumping_coefficient) * new_x
      else dumping_coefficient * new_x + (Fin 1 - dumping_coefficient) * old_x)"

text \<open>
  \<^verbatim>\<open>np.linalg.svd\<close> on the \<open>1 \<times> 1\<close> matrices with a finite entry \<open>a \<ge> 0\<close>, where
  the factorisation is \<open>u = vh = [[1]]\<close> and \<open>s = [a]\<close>. Only these arguments are
  used below.
\<close>

definition svd_1x1 :: "mat \<Rightarrow> error + mat \<times> vec \<times> mat" where
  "svd_1x1 m =
     (case m of
        [[Fin a]] \<Rightarrow> if 0 \<le> a then Inr ([[Fin 1]], [Fin a], [[Fin 1]]) else Inl LinAlgError
      | _ \<Rightarrow> Inl LinAlgError)"

text \<open>Five samples of length one; \<open>x\<close> is the sample for \<open>x_hat_1\<close>, \<open>r\<close> the one for \<open>r_1\<close>.\<close>

definition unit_draws :: "real \<Rightarrow> real \<Rightarrow> draws" where
  "unit_draws x r =
     \<lparr>draw_d = [Fin 0], draw_x_hat_1 = [Fin x], draw_r_2 = [Fin 0],
      draw_x_hat_2 = [Fin 0], draw_r_1 = [Fin r]\<rparr>"

text \<open>
  The object the constructor builds from \<open>A = [[a]]\<close>, \<open>y = [b]\<close> and these samples
  (lemma \<open>init_1x1\<close> below).
\<close>

definition solver_1x1 :: "real \<Rightarrow> real \<Rightarrow> fl \<Rightarrow> fl \<Rightarrow> real \<Rightarrow> real \<Rightarrow> solver" where
  "solver_1x1 a b lam delta x r =
     \<lparr> l = lam, dumping = delta, A = [[Fin a]], y = [Fin b], M = 1, N = 1,
       s = [Fin a], s2 = [Fin a * Fin a], U = [[Fin 1]], VT = [[Fin 1]], V = [[Fin 1]],
       S = [[Fin a]], S_inv = [[Fin 1 / Fin a]],
       y_tilde = [(Fin 1 / Fin a * Fin 1 + Fin 0) * Fin b + Fin 0],
       d = [Fin 0], x_hat_1 = [Fin x], alpha_1 = Fin 1, eta_1 = Fin 1, gamma_2 = Fin 1,
       r_2 = [Fin 0], x_hat_2 = [Fin 0], alpha_2 = Fin 1, eta_2 = Fin 1, gamma_1 = Fin 1,
       r_1 = [Fin r] \<rparr>"

text \<open>
  What \<^verbatim>\<open>np.linalg.svd\<close> promises about the shapes of its result for an \<open>M \<times> N\<close>
  matrix, what the five samples' lengths are, and when the arrays of an object fit
  together: every vector of the iteration has length \<open>N\<close>, and \<open>V\<close> and \<open>VT\<close> are
  \<open>N \<times> N\<close>. On such an object no product or entrywise operation of the iteration meets
  arrays of different lengths.
\<close>

definition svd_contract :: "mat \<Rightarrow> mat \<times> vec \<times> mat \<Rightarrow> bool" where
  "svd_contract m res =
     (case res of (u, sv, vh) \<Rightarrow>
        has_shape u (length m) (length m) \<and> length sv = min (length m) (ncols m) \<and>
        has_shape vh (ncols m) (ncols m))"

definition draws_of_length :: "draws \<Rightarrow> nat \<Rightarrow> bool" where
  "draws_of_length rnd n =
     (length (draw_d rnd) = n \<and> length (draw_x_hat_1 rnd) = n \<and> length (draw_r_2 rnd) = n \<and>
      length (draw_x_hat_2 rnd) = n \<and> length (draw_r_1 rnd) = n)"

definition consistent :: "solver \<Rightarrow> bool" where
  "consistent self =
     (length (s2 self) = N self \<and> length (y_tilde self) = N self \<and>
      length (d self) = N self \<and> length (x_hat_1 self) = N self \<and>
      length (r_2 self) = N self \<and> length (x_hat_2 self) = N self \<and>
      length (r_1 self) = N self \<and>
      has_shape (V self) (N self) (N self) \<and> has_shape (VT self) (N self) (N self))"

text \<open>The half-open interval from 0 to 1, and the positive finite numbers.\<close>

fun unit_half_open :: "fl \<Rightarrow> bool" where
  "unit_half_open (Fin a) = (0 \<le> a \<and> a < 1)"
| "unit_half_open PInf = False"
| "unit_half_open NInf = False"
| "unit_half_open NaN = False"

fun positive_finite :: "fl \<Rightarrow> bool" where
  "positive_finite (Fin a) = (0 < a)"
| "positive_finite PInf = False"
| "positive_finite NInf = False"
| "positive_finite NaN = False"

text \<open>The closed interval from 0 to 1, and the numbers that are positive or \<open>+inf\<close>.\<close>

fun unit_closed :: "fl \<Rightarrow> bool" where
  "unit_closed (Fin a) = (0 \<le> a \<and> a \<le> 1)"
| "unit_closed PInf = False"
| "unit_closed NInf = False"
| "unit_closed NaN = False"

fun positive_or_inf :: "fl \<Rightarrow> bool" where
  "positive_or_inf (Fin a) = (0 < a)"
| "positive_or_inf PInf = True"
| "positive_or_inf NInf = False"
| "positive_or_inf NaN = False"

section \<open>Rounding\<close>

text \<open>
  Rounding to 53 bits is monotone and leaves the numbers \<open>k * 2^e\<close> with
  \<open>|k| < 2^53\<close> and \<open>e \<ge> -1074\<close> as they are; the doubles lie on the grid of the
  multiples of \<open>2^-1074\<close>.
\<close>

lemma round_even_int [simp]: "round_even (of_int n) = n"
  by (simp add: round_even_def)

lemma round_even_bounds: "\<lfloor>z\<rfloor> \<le> round_even z" "round_even z \<le> \<lfloor>z\<rfloor> + 1"
  by (simp_all add: round_even_def Let_def)

lemma round_even_mono: "x \<le> w \<Longrightarrow> round_even x \<le> round_even w"
proof -
  assume xy: "x \<le> w"
  have f: "\<lfloor>x\<rfloor> \<le> \<lfloor>w\<rfloor>" using xy by (rule floor_mono)
  show ?thesis
  proof (cases "\<lfloor>x\<rfloor> = \<lfloor>w\<rfloor>")
    case True
    then show ?thesis using xy by (auto simp add: round_even_def Let_def)
  next
    case False
    then have "\<lfloor>x\<rfloor> + 1 \<le> \<lfloor>w\<rfloor>" using f by simp
    then show ?thesis using round_even_bounds(2) [of x] round_even_bounds(1) [of w] by linarith
  qed
qed

lemma round_even_minus: "round_even (- x) = - round_even x"
proof (cases "x = of_int \<lfloor>x\<rfloor>")
  case True
  then obtain n where "x = of_int n" ..
  then show ?thesis using round_even_int [of "- n"] by simp
next
  case False
  have "of_int \<lfloor>x\<rfloor> \<le> x" "x < of_int \<lfloor>x\<rfloor> + 1" by linarith+
  with False have b: "of_int \<lfloor>x\<rfloor> < x" "x < of_int \<lfloor>x\<rfloor> + 1" by linarith+
  have fl: "\<lfloor>- x\<rfloor> = - \<lfloor>x\<rfloor> - 1"
  proof (rule floor_unique)
    have c: "real_of_int (- \<lfloor>x\<rfloor> - 1) = - of_int \<lfloor>x\<rfloor> - 1" by simp
    show "of_int (- \<lfloor>x\<rfloor> - 1) \<le> - x" unfolding c using b by linarith
    show "- x < of_int (- \<lfloor>x\<rfloor> - 1) + 1" unfolding c using b by linarith
  qed
  define f where "f = \<lfloor>x\<rfloor>"
  define r where "r = x - of_int f"
  have x: "x = of_int f + r" by (simp add: r_def)
  have r: "0 < r" "r < 1" unfolding r_def f_def using b by linarith+
  consider "r < 1 / 2" | "1 / 2 < r" | "r = 1 / 2" by linarith
  then show ?thesis
  proof cases
    case 1
    then show ?thesis unfolding round_even_def Let_def fl
      unfolding f_def [symmetric] x by simp
  next
    case 2
    then show ?thesis unfolding round_even_def Let_def fl
      unfolding f_def [symmetric] x by simp
  next
    case 3
    then show ?thesis unfolding round_even_def Let_def fl
      unfolding f_def [symmetric] x by simp
  qed
qed

lemma round_even_between:
  "of_int n \<le> z \<Longrightarrow> z < of_int n + 1 / 2 \<Longrightarrow> round_even z = n"
proof -
  assume a: "of_int n \<le> z" "z < of_int n + 1 / 2"
  then have "\<lfloor>z\<rfloor> = n" by linarith
  then show ?thesis using a by (simp add: round_even_def)
qed


lemma expo_ge: "- 1022 \<le> expo x"
  by (simp add: expo_def)

lemma expo_minus [simp]: "expo (- x) = expo x"
  by (simp add: expo_def)

lemma expo_upper:
  assumes "x \<noteq> 0"
  shows "\<bar>x\<bar> < 2 powr of_int (expo x + 1)"
proof -
  have "log 2 \<bar>x\<bar> < of_int (\<lfloor>log 2 \<bar>x\<bar>\<rfloor> + 1)" by linarith
  also have "\<dots> \<le> of_int (expo x + 1)" by (simp add: expo_def)
  finally have "log 2 \<bar>x\<bar> < of_int (expo x + 1)" .
  then show ?thesis using assms by (simp add: log_less_iff)
qed

lemma expo_lower:
  assumes "x \<noteq> 0" and "- 1022 < expo x"
  shows "2 powr of_int (expo x) \<le> \<bar>x\<bar>"
proof -
  have "expo x = \<lfloor>log 2 \<bar>x\<bar>\<rfloor>" using assms(2) by (simp add: expo_def max_def split: if_splits)
  then have "of_int (expo x) \<le> log 2 \<bar>x\<bar>" by simp
  then show ?thesis using assms(1) by (simp add: le_log_iff)
qed

lemma expo_mono:
  assumes "x \<noteq> 0" and "\<bar>x\<bar> \<le> \<bar>w\<bar>"
  shows "expo x \<le> expo w"
proof -
  have "log 2 \<bar>x\<bar> \<le> log 2 \<bar>w\<bar>" using assms by simp
  then have "\<lfloor>log 2 \<bar>x\<bar>\<rfloor> \<le> \<lfloor>log 2 \<bar>w\<bar>\<rfloor>" by (rule floor_mono)
  then show ?thesis by (simp add: expo_def)
qed

lemma expo_eqI:
  assumes "2 powr of_int E \<le> \<bar>x\<bar>" and "\<bar>x\<bar> < 2 powr of_int (E + 1)" and "- 1022 \<le> E"
  shows "expo x = E"
proof -
  have pos: "0 < \<bar>x\<bar>" using assms(1) by (rule less_le_trans [rotated]) simp
  have "of_int E \<le> log 2 \<bar>x\<bar>" using assms(1) pos by (simp add: le_log_iff)
  moreover have "log 2 \<bar>x\<bar> < of_int E + 1" using assms(2) pos by (simp add: log_less_iff)
  ultimately have "\<lfloor>log 2 \<bar>x\<bar>\<rfloor> = E" by (rule floor_unique)
  then show ?thesis using assms(3) by (simp add: expo_def)
qed

lemma ulp_pos [simp]: "0 < ulp x"
  by (simp add: ulp_def)

lemma ulp_nonneg [simp]: "0 \<le> ulp x"
  by (simp add: ulp_def)

lemma ulp_minus [simp]: "ulp (- x) = ulp x"
  by (simp add: ulp_def)

lemma round53_zero [simp]: "round53 0 = 0"
  by (simp add: round53_def)

lemma round53_minus: "round53 (- x) = - round53 x"
  by (simp add: round53_def round_even_minus)

lemma round53_nonneg:
  assumes "0 \<le> x"
  shows "0 \<le> round53 x"
proof -
  have "0 \<le> x / ulp x" using assms by (simp add: zero_le_divide_iff)
  then have "0 \<le> \<lfloor>x / ulp x\<rfloor>" by simp
  then have "0 \<le> round_even (x / ulp x)" using round_even_bounds(1) [of "x / ulp x"] by linarith
  then show ?thesis by (simp add: round53_def)
qed

lemma two_powr_53: "2 powr (a + 1) / 2 powr (a - 52) = (2::real) ^ 53"
proof -
  have "2 powr (a + 1) / 2 powr (a - 52) = (2::real) powr ((a + 1) - (a - 52))"
    by (rule powr_diff [symmetric])
  also have "(a + 1) - (a - 52) = 53" by simp
  also have "(2::real) powr 53 = 2 ^ 53" by simp
  finally show ?thesis .
qed

lemma two_powr_52: "2 powr a / 2 powr (a - 52) = (2::real) ^ 52"
proof -
  have "2 powr a / 2 powr (a - 52) = (2::real) powr (a - (a - 52))"
    by (rule powr_diff [symmetric])
  also have "a - (a - 52) = 52" by simp
  also have "(2::real) powr 52 = 2 ^ 52" by simp
  finally show ?thesis .
qed

lemma round53_upper:
  assumes "0 < x"
  shows "round53 x \<le> 2 powr of_int (expo x + 1)"
proof -
  have "x < 2 powr of_int (expo x + 1)" using expo_upper [of x] assms by simp
  then have "x / ulp x \<le> 2 powr of_int (expo x + 1) / ulp x"
    by (intro divide_right_mono) simp_all
  also have "\<dots> = of_int (2 ^ 53)" by (simp add: ulp_def two_powr_53)
  finally have "round_even (x / ulp x) \<le> round_even (of_int (2 ^ 53))" by (rule round_even_mono)
  then have "round_even (x / ulp x) \<le> 2 ^ 53" by (simp only: round_even_int)
  then have "of_int (round_even (x / ulp x)) * ulp x \<le> of_int (2 ^ 53) * ulp x"
    by (intro mult_right_mono) (simp_all del: of_int_power of_int_numeral)
  also have "of_int (2 ^ 53) * ulp x = 2 powr of_int (expo x + 1)"
    using two_powr_53 [of "of_int (expo x)"] by (simp add: ulp_def field_simps)
  finally show ?thesis using assms by (simp add: round53_def)
qed

lemma round53_lower:
  assumes "0 < x" and "- 1022 < expo x"
  shows "2 powr of_int (expo x) \<le> round53 x"
proof -
  have "2 powr of_int (expo x) \<le> x" using expo_lower [of x] assms by simp
  then have "2 powr of_int (expo x) / ulp x \<le> x / ulp x"
    by (intro divide_right_mono) simp_all
  moreover have "2 powr of_int (expo x) / ulp x = of_int (2 ^ 52)" by (simp add: ulp_def two_powr_52)
  ultimately have "round_even (of_int (2 ^ 52)) \<le> round_even (x / ulp x)"
    by (intro round_even_mono) simp
  then have k: "2 ^ 52 \<le> round_even (x / ulp x)" by (simp only: round_even_int)
  have "2 powr of_int (expo x) = of_int (2 ^ 52) * ulp x"
    using two_powr_52 [of "of_int (expo x)"] by (simp add: ulp_def field_simps)
  also have "\<dots> \<le> of_int (round_even (x / ulp x)) * ulp x"
    using k by (intro mult_right_mono) (simp_all del: of_int_power of_int_numeral)
  finally show ?thesis using assms by (simp add: round53_def)
qed

lemma round53_mono_pos:
  assumes "0 < x" and "x \<le> w"
  shows "round53 x \<le> round53 w"
proof -
  have w: "0 < w" using assms by simp
  have e: "expo x \<le> expo w" using expo_mono [of x w] assms by simp
  show ?thesis
  proof (cases "expo x = expo w")
    case True
    then have u: "ulp x = ulp w" by (simp add: ulp_def)
    have "x / ulp w \<le> w / ulp w" using assms(2) by (intro divide_right_mono) simp_all
    then have "round_even (x / ulp w) \<le> round_even (w / ulp w)" by (rule round_even_mono)
    then have "of_int (round_even (x / ulp w)) * ulp w \<le> of_int (round_even (w / ulp w)) * ulp w"
      by (intro mult_right_mono) simp_all
    then show ?thesis using assms(1) w u by (simp add: round53_def)
  next
    case False
    then have lt: "expo x + 1 \<le> expo w" using e by simp
    then have "- 1022 < expo w" using expo_ge [of x] by linarith
    then have "2 powr of_int (expo w) \<le> round53 w" using round53_lower w by simp
    moreover have "round53 x \<le> 2 powr of_int (expo x + 1)" using round53_upper assms(1) by simp
    moreover have "(2::real) powr of_int (expo x + 1) \<le> 2 powr of_int (expo w)"
      using lt by (simp del: of_int_add)
    ultimately show ?thesis by linarith
  qed
qed

lemma round53_mono:
  assumes "x \<le> w"
  shows "round53 x \<le> round53 w"
proof -
  consider "0 < x" | "w < 0" | "x \<le> 0" "0 \<le> w" by linarith
  then show ?thesis
  proof cases
    case 1
    then show ?thesis using assms by (rule round53_mono_pos)
  next
    case 2
    then have "round53 (- w) \<le> round53 (- x)" using assms by (intro round53_mono_pos) simp_all
    then show ?thesis by (simp add: round53_minus)
  next
    case 3
    have "0 \<le> round53 (- x)" using 3(1) by (intro round53_nonneg) simp
    then have "round53 x \<le> 0" by (simp add: round53_minus)
    moreover have "0 \<le> round53 w" using 3(2) by (rule round53_nonneg)
    ultimately show ?thesis by linarith
  qed
qed


lemma mant_bound_pos:
  assumes "0 < x"
  shows "0 \<le> round_even (x / ulp x)" and "round_even (x / ulp x) \<le> 2 ^ 53"
proof -
  have "0 \<le> x / ulp x" using assms by (simp add: zero_le_divide_iff)
  then have "0 \<le> \<lfloor>x / ulp x\<rfloor>" by simp
  then show "0 \<le> round_even (x / ulp x)" using round_even_bounds(1) [of "x / ulp x"] by linarith
  have "x < 2 powr of_int (expo x + 1)" using expo_upper [of x] assms by simp
  then have "x / ulp x \<le> 2 powr of_int (expo x + 1) / ulp x"
    by (intro divide_right_mono) simp_all
  also have "\<dots> = of_int (2 ^ 53)" by (simp add: ulp_def two_powr_53)
  finally have "round_even (x / ulp x) \<le> round_even (of_int (2 ^ 53))" by (rule round_even_mono)
  then show "round_even (x / ulp x) \<le> 2 ^ 53" by (simp only: round_even_int)
qed

lemma mant_bound: "\<bar>round_even (x / ulp x)\<bar> \<le> 2 ^ 53"
proof -
  consider "0 < x" | "x = 0" | "x < 0" by linarith
  then show ?thesis
  proof cases
    case 1
    then show ?thesis using mant_bound_pos [of x] by simp
  next
    case 2
    then show ?thesis using round_even_int [of 0] by simp
  next
    case 3
    then have "0 < - x" by simp
    from mant_bound_pos [OF this] show ?thesis by (simp add: round_even_minus)
  qed
qed

lemma two_powr_shift: "(2::real) powr (a + real n) = 2 powr a * 2 ^ n"
proof -
  have "(2::real) powr (a + real n) = 2 powr a * 2 powr real n" by (rule powr_add)
  also have "(2::real) powr real n = 2 ^ n" by (simp add: powr_realpow)
  finally show ?thesis .
qed

lemma round53_fix:
  assumes k: "\<bar>k\<bar> < 2 ^ 53" and e: "- 1074 \<le> e"
  shows "round53 (of_int k * 2 powr of_int e) = of_int k * 2 powr of_int e"
proof -
  define x where "x = real_of_int k * 2 powr of_int e"
  show ?thesis
  proof (cases "x = 0")
    case True
    then show ?thesis by (simp add: x_def)
  next
    case False
    have "\<bar>x\<bar> = of_int \<bar>k\<bar> * 2 powr of_int e" by (simp add: x_def abs_mult)
    also have "\<dots> < of_int (2 ^ 53) * 2 powr of_int e"
      using k by (intro mult_strict_right_mono) (simp_all del: of_int_power of_int_numeral)
    also have "\<dots> = 2 powr (of_int e + 53)" by (simp add: powr_add)
    finally have "log 2 \<bar>x\<bar> < of_int e + 53" using False by (simp add: log_less_iff)
    then have "log 2 \<bar>x\<bar> < of_int (e + 53)" by simp
    then have "\<lfloor>log 2 \<bar>x\<bar>\<rfloor> < e + 53" by (simp only: floor_less_iff)
    then have le: "expo x - 52 \<le> e" using e by (simp add: expo_def)
    define n where "n = nat (e - (expo x - 52))"
    define u where "u = (2::real) powr of_int (expo x - 52)"
    have upos: "0 < u" by (simp add: u_def)
    have "real_of_int e = of_int (expo x - 52) + real n" using le by (simp add: n_def)
    then have "(2::real) powr of_int e = 2 powr (of_int (expo x - 52) + real n)" by (simp only:)
    then have p: "(2::real) powr of_int e = u * 2 ^ n" by (simp only: two_powr_shift u_def)
    have xu: "x = of_int (k * 2 ^ n) * u" by (simp add: x_def p)
    then have "x / u = of_int (k * 2 ^ n)" using upos by simp
    then have "round_even (x / u) = k * 2 ^ n" by (simp only: round_even_int)
    then have "round53 x = of_int (k * 2 ^ n) * u" using False by (simp add: round53_def ulp_def u_def)
    then have "round53 x = x" by (simp only: xu [symmetric])
    then show ?thesis by (simp only: x_def)
  qed
qed

lemma round53_idem: "round53 (round53 x) = round53 x"
proof (cases "x = 0")
  case True
  then show ?thesis by simp
next
  case False
  define K where "K = round_even (x / ulp x)"
  have w: "round53 x = of_int K * 2 powr of_int (expo x - 52)"
    using False by (simp add: round53_def K_def ulp_def)
  have e: "- 1074 \<le> expo x - 52" using expo_ge [of x] by simp
  have b: "\<bar>K\<bar> \<le> 2 ^ 53" unfolding K_def by (rule mant_bound)
  show ?thesis
  proof (cases "\<bar>K\<bar> < 2 ^ 53")
    case True
    show ?thesis unfolding w by (rule round53_fix [OF True e])
  next
    case False
    with b have "K = 2 ^ 53 \<or> K = - (2 ^ 53)" by linarith
    then obtain h where h: "K = 2 * h" "\<bar>h\<bar> < 2 ^ 53"
    proof
      assume "K = 2 ^ 53"
      then show ?thesis by (intro that [of "2 ^ 52"]) simp_all
    next
      assume "K = - (2 ^ 53)"
      then show ?thesis by (intro that [of "- (2 ^ 52)"]) simp_all
    qed
    have "(2::real) powr (of_int (expo x - 52) + real 1) = 2 powr of_int (expo x - 52) * 2 ^ 1"
      by (rule two_powr_shift)
    then have "(2::real) powr of_int (expo x - 52 + 1) = 2 powr of_int (expo x - 52) * 2"
      by simp
    then have w': "round53 x = of_int h * 2 powr of_int (expo x - 52 + 1)"
      by (simp add: w h(1))
    have "- 1074 \<le> expo x - 52 + 1" using e by simp
    then show ?thesis unfolding w' by (rule round53_fix [OF h(2)])
  qed
qed

lemma round53_grid: "\<exists>m::int. round53 x = of_int m * 2 powr (- 1074)"
proof (cases "x = 0")
  case True
  then show ?thesis by (intro exI [of _ 0]) simp
next
  case False
  define n where "n = nat (expo x - 52 + 1074)"
  have "real_of_int (expo x - 52) = - 1074 + real n" using expo_ge [of x] by (simp add: n_def)
  then have "(2::real) powr of_int (expo x - 52) = 2 powr (- 1074 + real n)" by (simp only:)
  then have "(2::real) powr of_int (expo x - 52) = 2 powr (- 1074) * 2 ^ n"
    by (simp only: two_powr_shift)
  then have "round53 x = of_int (round_even (x / ulp x) * 2 ^ n) * 2 powr (- 1074)"
    using False by (simp add: round53_def ulp_def)
  then show ?thesis ..
qed

lemma round53_eval:
  assumes "2 powr of_int E \<le> \<bar>x\<bar>" and "\<bar>x\<bar> < 2 powr of_int (E + 1)" and "- 1022 \<le> E"
  shows "round53 x = of_int (round_even (x / 2 powr of_int (E - 52))) * 2 powr of_int (E - 52)"
proof -
  have "expo x = E" using assms by (rule expo_eqI)
  moreover have "x \<noteq> 0" using assms(1) by (auto simp add: not_le [symmetric])
  ultimately show ?thesis by (simp add: round53_def ulp_def)
qed

lemma round64_zero [simp]: "round64 0 = Fin 0"
  by (simp add: round64_def)

lemma representable_iff: "representable x \<longleftrightarrow> round53 x = x \<and> \<bar>x\<bar> < 2 ^ 1024"
  by (auto simp add: representable_def round64_def signed_inf_def)

lemma round64_cases:
  obtains (fin) "round64 x = Fin (round53 x)" "\<bar>round53 x\<bar> < 2 ^ 1024"
  | (pinf) "round64 x = PInf" "2 ^ 1024 \<le> round53 x"
  | (ninf) "round64 x = NInf" "round53 x \<le> - (2 ^ 1024)"
proof (cases "2 ^ 1024 \<le> \<bar>round53 x\<bar>")
  case False
  then show ?thesis by (intro fin) (simp_all add: round64_def)
next
  case True
  show ?thesis
  proof (cases "0 < x")
    case p: True
    then have "0 \<le> round53 x" by (intro round53_nonneg) simp
    then show ?thesis using True p by (intro pinf) (simp_all add: round64_def signed_inf_def)
  next
    case n: False
    then have "0 \<le> round53 (- x)" by (intro round53_nonneg) simp
    then have le: "round53 x \<le> 0" by (simp add: round53_minus)
    have "x \<noteq> 0" using True by auto
    then have "x < 0" using n by simp
    then show ?thesis using True le by (intro ninf) (simp_all add: round64_def signed_inf_def)
  qed
qed

lemma round64_representable: "round64 x = Fin w \<Longrightarrow> representable w"
  by (cases x rule: round64_cases) (auto simp add: representable_iff round53_idem)

lemma representable_zero [simp]: "representable 0"
  by (simp add: representable_def)

lemma representable_minus: "representable x \<Longrightarrow> representable (- x)"
  by (simp add: representable_iff round53_minus)

lemma representable_abs: "representable x \<Longrightarrow> representable \<bar>x\<bar>"
  by (simp add: abs_real_def representable_minus)

lemma round64_lower:
  assumes "representable a" and "a \<le> x"
  obtains "round64 x = PInf" | z where "round64 x = Fin z" "a \<le> z"
proof -
  have a: "round53 a = a" "- (2 ^ 1024) < a" using assms(1) by (auto simp add: representable_iff)
  have "a \<le> round53 x" using round53_mono [OF assms(2)] a(1) by simp
  then show ?thesis using a(2) that by (cases x rule: round64_cases) auto
qed

lemma round64_upper:
  assumes "representable b" and "x \<le> b"
  obtains "round64 x = NInf" | z where "round64 x = Fin z" "z \<le> b"
proof -
  have b: "round53 b = b" "b < 2 ^ 1024" using assms(1) by (auto simp add: representable_iff)
  have "round53 x \<le> b" using round53_mono [OF assms(2)] b(1) by simp
  then show ?thesis using b(2) that by (cases x rule: round64_cases) auto
qed

lemma round64_between:
  assumes "representable a" and "representable b" and "a \<le> x" and "x \<le> b"
  obtains z where "round64 x = Fin z" "a \<le> z" "z \<le> b"
proof -
  show ?thesis
  proof (rule round64_lower [OF assms(1,3)])
    assume p: "round64 x = PInf"
    show ?thesis by (rule round64_upper [OF assms(2,4)]) (use p in simp_all)
  next
    fix z assume z: "round64 x = Fin z" "a \<le> z"
    show ?thesis by (rule round64_upper [OF assms(2,4)]) (use z that in auto)
  qed
qed



lemma below_2_1024:
  assumes "\<bar>k\<bar> < 2 ^ 53" and "n \<le> 971"
  shows "\<bar>real_of_int k\<bar> * 2 ^ n < 2 ^ 1024"
proof -
  have "\<bar>real_of_int k\<bar> < 2 ^ 53"
    using assms(1) by (metis of_int_abs of_int_less_numeral_power_cancel_iff)
  then have "\<bar>real_of_int k\<bar> * 2 ^ n < 2 ^ 53 * 2 ^ n"
    by (intro mult_strict_right_mono) simp_all
  also have "(2::real) ^ 53 * 2 ^ n = 2 ^ (53 + n)" by (simp only: power_add)
  also have "\<dots> \<le> 2 ^ 1024" using assms(2) by (intro power_increasing) simp_all
  finally show ?thesis .
qed

lemma representable_int_pow:
  assumes "\<bar>k\<bar> < 2 ^ 53" and "n \<le> 971"
  shows "representable (of_int k * 2 ^ n)"
proof -
  have p: "(2::real) powr of_int (int n) = 2 ^ n" by (simp add: powr_realpow)
  have "round53 (of_int k * 2 powr of_int (int n)) = of_int k * 2 powr of_int (int n)"
    using assms(1) by (intro round53_fix) simp_all
  then have r: "round53 (of_int k * 2 ^ n) = of_int k * 2 ^ n" by (simp only: p)
  have "\<bar>real_of_int k * 2 ^ n\<bar> = \<bar>real_of_int k\<bar> * 2 ^ n" by (simp add: abs_mult)
  then have "\<bar>real_of_int k * 2 ^ n\<bar> < 2 ^ 1024" using below_2_1024 [OF assms] by (simp only:)
  then show ?thesis using r by (simp only: representable_iff simp_thms)
qed

lemma representable_int_div_pow:
  assumes "\<bar>k\<bar> < 2 ^ 53" and "n \<le> 1074"
  shows "representable (of_int k / 2 ^ n)"
proof -
  have p: "(2::real) powr of_int (- int n) = 1 / 2 ^ n"
    by (simp add: powr_minus_divide powr_realpow)
  have "round53 (of_int k * 2 powr of_int (- int n)) = of_int k * 2 powr of_int (- int n)"
    using assms by (intro round53_fix) simp_all
  then have "round53 (of_int k * (1 / 2 ^ n)) = of_int k * (1 / 2 ^ n)" by (simp only: p)
  then have r: "round53 (of_int k / 2 ^ n) = of_int k / 2 ^ n" by (simp only: times_divide_eq_right mult_1_right)
  have one: "(1::real) \<le> 2 ^ n" by (rule one_le_power) simp
  have "\<bar>real_of_int k / 2 ^ n\<bar> = \<bar>real_of_int k\<bar> / 2 ^ n" by simp
  also have "\<dots> \<le> \<bar>real_of_int k\<bar> / 1" using one by (intro divide_left_mono) simp_all
  also have "\<dots> = \<bar>real_of_int k\<bar> * 2 ^ 0" by simp
  also have "\<dots> < 2 ^ 1024" using assms(1) by (intro below_2_1024) simp_all
  finally show ?thesis using r by (simp only: representable_iff simp_thms)
qed


lemma round53_two_1024: "round53 (2 ^ 1024) = 2 ^ 1024"
proof -
  have p: "(2::real) powr of_int (int 1024) = 2 ^ 1024" by (simp only: of_int_of_nat_eq powr_realpow zero_less_numeral)
  have "round53 (of_int 1 * 2 powr of_int (int 1024)) = of_int 1 * 2 powr of_int (int 1024)"
    by (rule round53_fix) simp_all
  then show ?thesis by (simp only: p of_int_1 mult_1)
qed

lemma round64_overflow:
  assumes "2 ^ 1024 \<le> x"
  shows "round64 x = PInf"
proof -
  have "round53 (2 ^ 1024) \<le> round53 x" using assms by (rule round53_mono)
  then have b: "2 ^ 1024 \<le> round53 x" by (simp only: round53_two_1024)
  have "(0::real) < 2 ^ 1024" by simp
  then have "0 < x" using assms by (rule less_le_trans)
  then show ?thesis using b by (cases x rule: round64_cases) (simp_all add: round64_def signed_inf_def)
qed

lemma representable_grid:
  assumes "representable a"
  obtains m :: int where "a = of_int m * 2 powr (- 1074)"
  using round53_grid [of a] assms by (auto simp add: representable_iff)

lemma representable_diff_neg:
  assumes "representable a" and "representable b" and "a < b"
  shows "round53 (a - b) < 0"
proof -
  obtain m where m: "a = of_int m * 2 powr (- 1074)" using assms(1) by (rule representable_grid)
  obtain n where n: "b = of_int n * 2 powr (- 1074)" using assms(2) by (rule representable_grid)
  have g: "(0::real) < 2 powr (- 1074)" by simp
  have "real_of_int m < real_of_int n" using assms(3) g unfolding m n by (simp only: mult_less_cancel_right_pos)
  then have "m - n \<le> - 1" by simp
  then have "real_of_int (m - n) \<le> - 1" by (metis of_int_le_iff of_int_minus of_int_1)
  then have "real_of_int (m - n) * 2 powr (- 1074) \<le> - 1 * 2 powr (- 1074)"
    using g by (intro mult_right_mono) simp_all
  moreover have "a - b = real_of_int (m - n) * 2 powr (- 1074)"
    unfolding m n by (simp add: left_diff_distrib)
  ultimately have "a - b \<le> of_int (- 1) * 2 powr of_int (- 1074)" by simp
  then have "round53 (a - b) \<le> round53 (of_int (- 1) * 2 powr of_int (- 1074))" by (rule round53_mono)
  also have "\<dots> = of_int (- 1) * 2 powr of_int (- 1074)" by (rule round53_fix) simp_all
  also have "\<dots> < 0" by simp
  finally show ?thesis .
qed

lemma round64_diff_neg:
  assumes "representable a" and "representable b" and "a < b"
  shows "round64 (a - b) = NInf \<or> (\<exists>z. round64 (a - b) = Fin z \<and> z < 0)"
  using representable_diff_neg [OF assms]
  by (cases "a - b" rule: round64_cases) auto

lemma round64_minus: "round64 (- x) = - round64 x"
  by (simp add: round64_def round53_minus signed_inf_def)

lemma heaviside_diff:
  assumes "representable a" and "representable b"
  shows "heaviside (Fin a - Fin b) h = (if a < b then Fin 0 else if a = b then h else Fin 1)"
proof -
  consider "a < b" | "a = b" | "b < a" by linarith
  then show ?thesis
  proof cases
    case 1
    then show ?thesis using round64_diff_neg [OF assms 1] by (auto simp add: minus_fl_def)
  next
    case 2
    then show ?thesis by (simp add: minus_fl_def)
  next
    case 3
    have "round64 (a - b) = - round64 (b - a)" using round64_minus [of "b - a"] by simp
    then have "round64 (a - b) = PInf \<or> (\<exists>z. round64 (a - b) = Fin z \<and> 0 < z)"
      using round64_diff_neg [OF assms(2,1) 3] by auto
    then show ?thesis using 3 by (auto simp add: minus_fl_def)
  qed
qed

lemma plus_fl_representable: "a + b = Fin c \<Longrightarrow> representable c"
  by (cases a; cases b) (auto intro: round64_representable)

lemma minus_fl_representable: "a - b = Fin c \<Longrightarrow> representable c"
  unfolding minus_fl_def by (rule plus_fl_representable)

lemma times_fl_representable: "a * b = Fin c \<Longrightarrow> representable c"
  by (cases a; cases b) (auto intro: round64_representable simp add: signed_inf_def split: if_splits)

lemma divide_fl_representable: "a / b = Fin c \<Longrightarrow> representable c"
  by (cases a; cases b) (auto intro: round64_representable simp add: signed_inf_def split: if_splits)

lemma round64_int_div_pow:
  "\<bar>k\<bar> < 2 ^ 53 \<Longrightarrow> n \<le> 1074 \<Longrightarrow> round64 (of_int k / 2 ^ n) = Fin (of_int k / 2 ^ n)"
  using representable_int_div_pow [of k n] by (simp add: representable_def)

lemma round64_int_pow:
  "\<bar>k\<bar> < 2 ^ 53 \<Longrightarrow> n \<le> 971 \<Longrightarrow> round64 (of_int k * 2 ^ n) = Fin (of_int k * 2 ^ n)"
  using representable_int_pow [of k n] by (simp add: representable_def)

lemma round64_small:
  "round64 1 = Fin 1" "round64 2 = Fin 2" "round64 (1 / 2) = Fin (1 / 2)"
  "round64 (3 / 2) = Fin (3 / 2)" "round64 (- 1) = Fin (- 1)"
  using round64_int_div_pow [of 1 0] round64_int_div_pow [of 2 0] round64_int_div_pow [of 1 1]
    round64_int_div_pow [of 3 1] round64_int_div_pow [of "- 1" 0]
  by simp_all

lemma round_even_near:
  assumes "of_int K - 1 / 2 < z" and "z < of_int K + 1 / 2"
  shows "round_even z = K"
proof (cases "of_int K \<le> z")
  case True
  then show ?thesis using assms(2) by (rule round_even_between)
next
  case False
  then have b: "of_int (K - 1) \<le> z" "z < of_int (K - 1) + 1" using assms(1) by simp_all
  then have f: "\<lfloor>z\<rfloor> = K - 1" by (rule floor_unique)
  have "1 / 2 < z - of_int (K - 1)" using assms(1) by simp
  then show ?thesis unfolding round_even_def Let_def f by simp
qed

lemma two_powr_neg_nat: "(2::real) powr of_int (- int n) = 1 / 2 ^ n"
  by (simp add: powr_minus_divide powr_realpow)

lemma two_powr_nat: "(2::real) powr of_int (int n) = 2 ^ n"
  by (simp add: powr_realpow)

lemma round64_eval_neg:
  assumes "1 / 2 ^ n \<le> x" and "x < 2 / 2 ^ n" and "n \<le> 1022"
    and "of_int K - 1 / 2 < x * 2 ^ (n + 52)" and "x * 2 ^ (n + 52) < of_int K + 1 / 2"
  shows "round64 x = Fin (of_int K / 2 ^ (n + 52))"
proof -
  have pos: "0 < x" using assms(1) by (rule less_le_trans [rotated]) simp
  have e1: "(2::real) powr of_int (- int n) = 1 / 2 ^ n" by (rule two_powr_neg_nat)
  have "(2::real) powr of_int (- int n + 1) = 2 powr (of_int (- int n) + real 1)" by simp
  also have "\<dots> = 2 powr of_int (- int n) * 2 ^ 1" by (rule two_powr_shift)
  finally have "(2::real) powr of_int (- int n + 1) = 2 powr of_int (- int n) * 2 ^ 1" .
  then have e2: "(2::real) powr of_int (- int n + 1) = 2 / 2 ^ n" unfolding e1 by simp
  have "- int n - 52 = - int (n + 52)" by simp
  then have e3: "(2::real) powr of_int (- int n - 52) = 1 / 2 ^ (n + 52)"
    by (simp only: two_powr_neg_nat)
  have ax: "\<bar>x\<bar> = x" using pos by simp
  have h1: "2 powr of_int (- int n) \<le> \<bar>x\<bar>" unfolding e1 ax by (rule assms(1))
  have h2: "\<bar>x\<bar> < 2 powr of_int (- int n + 1)" unfolding e2 ax by (rule assms(2))
  have h3: "- 1022 \<le> - int n" using assms(3) by simp
  have "round53 x = of_int (round_even (x / 2 powr of_int (- int n - 52))) * 2 powr of_int (- int n - 52)"
    by (rule round53_eval [OF h1 h2 h3])
  moreover have "x / (1 / 2 ^ (n + 52)) = x * 2 ^ (n + 52)" by simp
  moreover have "round_even (x * 2 ^ (n + 52)) = K" using assms(4,5) by (rule round_even_near)
  ultimately have r: "round53 x = of_int K / 2 ^ (n + 52)" by (simp only: e3) simp
  have nn: "0 \<le> round53 x" using pos by (intro round53_nonneg) simp
  have ex: "expo x = - int n" by (rule expo_eqI [OF h1 h2 h3])
  have "round53 x \<le> 2 powr of_int (expo x + 1)" using pos by (rule round53_upper)
  then have "round53 x \<le> 2 / 2 ^ n" unfolding ex e2 .
  then have "\<bar>round53 x\<bar> \<le> 2 / 2 ^ n" using nn by simp
  also have "\<dots> \<le> 2 / 1" by (intro divide_left_mono) simp_all
  also have "\<dots> < (2::real) ^ 1024" by simp
  finally show ?thesis by (simp add: round64_def r)
qed

lemma round64_eval_pos:
  assumes "2 ^ n \<le> x" and "x < 2 * 2 ^ n" and "n \<le> 52"
    and "of_int K - 1 / 2 < x * 2 ^ (52 - n)" and "x * 2 ^ (52 - n) < of_int K + 1 / 2"
  shows "round64 x = Fin (of_int K / 2 ^ (52 - n))"
proof -
  have pos: "0 < x" using assms(1) by (rule less_le_trans [rotated]) simp
  have e1: "(2::real) powr of_int (int n) = 2 ^ n" by (rule two_powr_nat)
  have "(2::real) powr of_int (int n + 1) = 2 powr (of_int (int n) + real 1)" by simp
  also have "\<dots> = 2 powr of_int (int n) * 2 ^ 1" by (rule two_powr_shift)
  finally have "(2::real) powr of_int (int n + 1) = 2 powr of_int (int n) * 2 ^ 1" .
  then have e2: "(2::real) powr of_int (int n + 1) = 2 * 2 ^ n" unfolding e1 by simp
  have "int n - 52 = - int (52 - n)" using assms(3) by simp
  then have e3: "(2::real) powr of_int (int n - 52) = 1 / 2 ^ (52 - n)"
    by (simp only: two_powr_neg_nat)
  have ax: "\<bar>x\<bar> = x" using pos by simp
  have h1: "2 powr of_int (int n) \<le> \<bar>x\<bar>" unfolding e1 ax by (rule assms(1))
  have h2: "\<bar>x\<bar> < 2 powr of_int (int n + 1)" unfolding e2 ax by (rule assms(2))
  have h3: "- 1022 \<le> int n" by simp
  have "round53 x = of_int (round_even (x / 2 powr of_int (int n - 52))) * 2 powr of_int (int n - 52)"
    by (rule round53_eval [OF h1 h2 h3])
  moreover have "x / (1 / 2 ^ (52 - n)) = x * 2 ^ (52 - n)" by simp
  moreover have "round_even (x * 2 ^ (52 - n)) = K" using assms(4,5) by (rule round_even_near)
  ultimately have r: "round53 x = of_int K / 2 ^ (52 - n)" by (simp only: e3) simp
  have nn: "0 \<le> round53 x" using pos by (intro round53_nonneg) simp
  have ex: "expo x = int n" by (rule expo_eqI [OF h1 h2 h3])
  have "round53 x \<le> 2 powr of_int (expo x + 1)" using pos by (rule round53_upper)
  then have "round53 x \<le> 2 * 2 ^ n" unfolding ex e2 .
  then have "\<bar>round53 x\<bar> \<le> 2 * 2 ^ n" using nn by simp
  also have "\<dots> \<le> 2 * 2 ^ 52" using assms(3) by (intro mult_left_mono power_increasing) simp_all
  also have "\<dots> < (2::real) ^ 1024" by simp
  finally show ?thesis by (simp add: round64_def r)
qed

lemma a_min_bound_value: "a_min_bound = Fin (4835703278458517 / 2 ^ 82)"
  unfolding a_min_bound_def
  using round64_eval_neg [of 30 "1 / 10 ^ 9" 4835703278458517] by simp

lemma a_max_bound_value: "a_max_bound = Fin (10 ^ 9)"
  unfolding a_max_bound_def
  using round64_int_div_pow [of "10 ^ 9" 0] by simp

section \<open>Shapes\<close>

text \<open>
  The constructor builds an object whose arrays fit together, and a pass through the
  loop body keeps them so.
\<close>

lemma has_shape_transpose:
  assumes "has_shape m n n"
  shows "has_shape (transpose m) n n"
proof -
  have len: "length m = n" and rows: "\<And>i. i < length m \<Longrightarrow> length (m ! i) = n"
    using assms by (auto simp add: has_shape_def list_all_length)
  have "m = [] \<Longrightarrow> n = 0" using len by simp
  from transpose_rectangle [OF this rows]
  have "transpose m = map (\<lambda>i. map (\<lambda>j. m ! j ! i) [0..<length m]) [0..<n]" by simp
  then show ?thesis using len by (simp add: has_shape_def list_all_length)
qed

lemma init_consistent:
  assumes "svd Am = Inr res" and "svd_contract Am res" and "length yv = length Am"
    and "draws_of_length rnd (ncols Am)"
  shows "\<exists>st. init svd rnd Am yv lam delta = ([Svd Am], Inr st) \<and> consistent st \<and>
              N st = ncols Am \<and> M st = length Am"
proof -
  obtain u sv vh where r: "res = (u, sv, vh)" by (cases res)
  have c: "has_shape vh (ncols Am) (ncols Am)" "length sv = min (length Am) (ncols Am)"
    using assms(2) r by (simp_all add: svd_contract_def)
  show ?thesis
    using assms(1,3,4) c has_shape_transpose [OF c(1)] r
    by (simp add: init_def Let_def consistent_def draws_of_length_def matvec_def matmul_def diag_assign_def)
qed

lemma iteration_consistent:
  assumes "consistent st"
  shows "consistent (iteration ud st)" and "N (iteration ud st) = N st"
  using assms
  by (simp_all add: consistent_def iteration_def Let_def update_x_hat_1_def update_r_2_def
      update_d_def update_x_hat_2_def update_r_1_def matvec_def has_shape_def)

section \<open>The constructor on one-dimensional problems\<close>

lemma init_1x1:
  "0 \<le> a \<Longrightarrow> init svd_1x1 (unit_draws x r) [[Fin a]] [Fin b] lam delta =
     ([Svd [[Fin a]]], Inr (solver_1x1 a b lam delta x r))"
  by (simp add: init_def svd_1x1_def unit_draws_def ncols_def diag_assign_def matmul_def
      matvec_def dot_def solver_1x1_def Let_def)

text \<open>
  Claim C3, as stated: when the row count of \<open>A\<close> is not the length of \<open>y\<close> the
  constructor fails with a dimension error before the factorisation is performed. It
  fails on \<open>A = [[1]]\<close>, \<open>y = [1, 2]\<close>: the constructor has no check of its own, and
  \<^verbatim>\<open>np.linalg.svd\<close> has been called when the error arrives.
\<close>

theorem init_mismatch_counterexample:
  "fst (init svd_1x1 (unit_draws 0 1) [[Fin 1]] [Fin 1, Fin 2] (Fin 1) (Fin (1 / 2)))
     = [Svd [[Fin 1]]]"
  by (simp add: init_def svd_1x1_def Let_def)

text \<open>
  Claim C3, amended. When the row count of \<open>A\<close> is not the length of \<open>y\<close> the
  constructor fails, after it has called \<^verbatim>\<open>np.linalg.svd\<close> on \<open>A\<close>: with the
  factorisation's own error if that raised, otherwise with the \<^verbatim>\<open>ValueError\<close> of the
  matrix product that computes \<open>y_tilde\<close>.
\<close>

theorem init_mismatch_after_svd:
  assumes "length yv \<noteq> length Am"
  shows "init svd rnd Am yv lam delta =
           ([Svd Am], Inl (case svd Am of Inl e \<Rightarrow> e | Inr res \<Rightarrow> ValueError))"
  using assms by (simp add: init_def Let_def split: sum.splits prod.splits)

theorem init_mismatch_after_svd_witness:
  "init svd_1x1 (unit_draws 0 1) [[Fin 2]] [] (Fin 1) (Fin (1 / 2)) =
     ([Svd [[Fin 2]]], Inl ValueError)"
  using init_mismatch_after_svd [of "[]" "[[Fin 2]]" svd_1x1 "unit_draws 0 1" "Fin 1"
      "Fin (1 / 2)"]
  by (simp add: svd_1x1_def)

text \<open>
  Claim C4, as stated: an entry of \<open>S_inv\<close> that belongs to a zero singular value is 0,
  and the constructor never divides by a zero singular value without a guard. It fails
  on \<open>A = [[0]]\<close>, \<open>y = [1]\<close>, whose singular value is 0: the constructor computes
  \<^verbatim>\<open>1.0 / s[0]\<close> and stores \<open>+inf\<close>.
\<close>

theorem S_inv_zero_singular_value_counterexample:
  "map_sum id S_inv
     (snd (init svd_1x1 (unit_draws 0 1) [[Fin 0]] [Fin 1] (Fin 1) (Fin (1 / 2))))
     = Inr [[PInf]]"
  by (simp add: init_1x1 solver_1x1_def signed_inf_def)

text \<open>
  Claim C4, amended. When the factorisation returns \<open>(u, sv, vh)\<close> and the length of
  \<open>y\<close> is the row count of \<open>A\<close>, the constructor succeeds, and for every index \<open>i\<close>
  of \<open>sv\<close> (below both dimensions of \<open>A\<close>) the diagonal entry \<open>(i, i)\<close> of \<open>S_inv\<close>
  is \<^verbatim>\<open>1.0 / sv[i]\<close>, computed without a guard: \<open>+inf\<close> when \<open>sv[i]\<close> is 0.
\<close>

theorem S_inv_diagonal:
  assumes "svd Am = Inr (u, sv, vh)" and "length yv = length Am"
    and "i < length sv" and "i < length Am" and "i < ncols Am"
  shows "map_sum id (\<lambda>st. S_inv st ! i ! i) (snd (init svd rnd Am yv lam delta))
           = Inr (Fin 1 / sv ! i) \<and>
         (sv ! i = Fin 0 \<longrightarrow>
            map_sum id (\<lambda>st. S_inv st ! i ! i) (snd (init svd rnd Am yv lam delta)) = Inr PInf)"
  using assms by (simp add: init_def Let_def diag_assign_def signed_inf_def)

theorem S_inv_diagonal_witness:
  "map_sum id (\<lambda>st. S_inv st ! 0 ! 0)
     (snd (init svd_1x1 (unit_draws 0 1) [[Fin 0]] [Fin 3] (Fin 1) (Fin (1 / 2)))) = Inr PInf"
  using S_inv_diagonal [of svd_1x1 "[[Fin 0]]" "[[Fin 1]]" "[Fin 0]" "[[Fin 1]]" "[Fin 3]" 0
      "unit_draws 0 1" "Fin 1" "Fin (1 / 2)"]
  by (simp add: svd_1x1_def ncols_def signed_inf_def)

section \<open>The denoiser\<close>

lemma soft_threshold_entry:
  assumes "representable r" and "representable t" and "\<bar>r\<bar> \<le> t"
  shows "(Fin r - Fin t * sgn (Fin r)) * heaviside (\<bar>Fin r\<bar> - Fin t) (Fin (1 / 2)) = Fin 0"
proof -
  have rt: "representable (t * sgn r)"
    using assms(2) by (cases "r = 0"; cases "0 < r") (simp_all add: sgn_real_def representable_minus)
  then have p: "round64 (t * sgn r) = Fin (t * sgn r)" by (simp add: representable_def)
  have d: "Fin r - Fin t * sgn (Fin r) = round64 (r - t * sgn r)" by (simp add: p minus_fl_def)
  have h: "heaviside (\<bar>Fin r\<bar> - Fin t) (Fin (1 / 2)) = (if \<bar>r\<bar> < t then Fin 0 else Fin (1 / 2))"
    using heaviside_diff [OF representable_abs [OF assms(1)] assms(2)] assms(3) by simp
  show ?thesis
  proof (cases "\<bar>r\<bar> < t")
    case True
    have "- t \<le> r - t * sgn r" "r - t * sgn r \<le> t"
      using True by (auto simp add: sgn_real_def abs_real_def split: if_splits)
    then obtain z where z: "round64 (r - t * sgn r) = Fin z"
      using round64_between [OF representable_minus [OF assms(2)] assms(2)] by blast
    show ?thesis unfolding d h z using True by simp
  next
    case False
    then have "\<bar>r\<bar> = t" using assms(3) by simp
    then have z: "r - t * sgn r = 0" by (auto simp add: sgn_real_def abs_real_def split: if_splits)
    show ?thesis unfolding d h z using False by simp
  qed
qed

text \<open>
  Claim C5, as stated: for every coordinate with \<open>|r_1 i| \<le> l / gamma_1\<close> and
  \<open>gamma_1 > 0\<close> the entry of the denoiser's output is exactly 0. It fails when the
  quotient overflows. With \<open>l = 2^1023\<close>, \<open>gamma_1 = 1/2\<close> (a value inside the
  interval the driver clips \<open>gamma_1\<close> to) and \<open>r_1 = [1]\<close>, the quotient of the two
  numbers is \<open>2^1024\<close>, above \<open>|r|\<close>, but \<^verbatim>\<open>self.l / self.gamma_1\<close> is \<open>+inf\<close>: then
  \<open>r - inf * sign r\<close> is \<open>-inf\<close>, the step function is 0, and their product is NaN.
\<close>

theorem soft_threshold_overflow_counterexample:
  "(0::real) < 1 / 2 \<and> \<bar>1::real\<bar> \<le> 2 ^ 1023 / (1 / 2) \<and>
   update_x_hat_1
     ((solver_1x1 1 1 (Fin (2 ^ 1023)) (Fin (1 / 2)) 0 1)\<lparr>gamma_1 := Fin (1 / 2)\<rparr>) ! 0 = NaN"
proof -
  have "round64 (2 ^ 1023 / (1 / 2)) = PInf" by (rule round64_overflow) simp
  then have q: "Fin (2 ^ 1023) / Fin (1 / 2) = PInf" by simp
  have "update_x_hat_1
     ((solver_1x1 1 1 (Fin (2 ^ 1023)) (Fin (1 / 2)) 0 1)\<lparr>gamma_1 := Fin (1 / 2)\<rparr>) ! 0
     = (Fin 1 - Fin (2 ^ 1023) / Fin (1 / 2) * sgn (Fin 1))
         * heaviside (\<bar>Fin 1\<bar> - Fin (2 ^ 1023) / Fin (1 / 2)) (Fin (1 / 2))"
    by (simp add: update_x_hat_1_def solver_1x1_def)
  also have "\<dots> = NaN" unfolding q by (simp add: minus_fl_def signed_inf_def)
  finally show ?thesis by simp
qed

text \<open>
  Claim C5, amended. Where \<open>r_1\<close> has the finite double \<open>r\<close> at index \<open>i\<close>, the
  float quotient \<^verbatim>\<open>self.l / self.gamma_1\<close> is a finite number \<open>t\<close>, and
  \<open>|r| \<le> t\<close>, entry \<open>i\<close> of the vector \<^verbatim>\<open>__update_x_hat_1\<close> returns is exactly 0.
  The boundary \<open>|r| = t\<close> is included: there the step function is \<open>1/2\<close> and the other
  factor \<open>r - t * sign r\<close> is exactly 0.
\<close>

theorem soft_threshold_zero:
  assumes "i < length (r_1 st)" and "r_1 st ! i = Fin r" and "representable r"
    and "l st / gamma_1 st = Fin t" and "\<bar>r\<bar> \<le> t"
  shows "update_x_hat_1 st ! i = Fin 0"
proof -
  have "representable t" using assms(4) by (rule divide_fl_representable)
  from soft_threshold_entry [OF assms(3) this assms(5)] show ?thesis
    using assms(1,2,4) by (simp add: update_x_hat_1_def Let_def)
qed

text \<open>
  The theorem at the boundary: the object built from \<open>A = [[1]]\<close>, \<open>y = [1]\<close>,
  \<open>l = 1\<close> with the sample \<open>r_1 = [1]\<close>, where \<open>gamma_1 = 1\<close> and \<open>|r| = l / gamma_1\<close>.
\<close>

theorem soft_threshold_zero_witness:
  "update_x_hat_1 (solver_1x1 1 1 (Fin 1) (Fin (1 / 2)) 0 1) ! 0 = Fin 0"
  using soft_threshold_zero [of 0 "solver_1x1 1 1 (Fin 1) (Fin (1 / 2)) 0 1" 1 1]
  by (simp add: solver_1x1_def round64_small representable_def)

lemma heaviside_step:
  assumes "representable a" and "representable t"
  shows "heaviside (Fin \<bar>a\<bar> - Fin t) (Fin (1 / 2)) =
           Fin (if t < \<bar>a\<bar> then 1 else if \<bar>a\<bar> = t then 1 / 2 else 0)"
  using heaviside_diff [OF representable_abs [OF assms(1)] assms(2)] by auto

lemma heaviside_indicator:
  assumes "representable a" and "representable t" and "\<bar>a\<bar> \<noteq> t"
  shows "heaviside (Fin \<bar>a\<bar> - Fin t) (Fin (1 / 2)) = indicator_above (Fin \<bar>a\<bar>) (Fin t)"
  using heaviside_diff [OF representable_abs [OF assms(1)] assms(2)] assms(3)
  by (auto simp add: indicator_above_def)

text \<open>
  Claim C6, as stated: \<open>alpha_1\<close> is the mean of the indicator of
  \<open>|r_1 i| > l / gamma_1\<close>, every coordinate counting 0 or 1. It fails on the object
  built from \<open>A = [[1]]\<close>, \<open>y = [1]\<close>, \<open>l = 1\<close> with the sample \<open>r_1 = [1]\<close>: the
  one coordinate lies on the threshold, \<^verbatim>\<open>np.heaviside(0, 0.5)\<close> is \<open>1/2\<close>, and
  \<^verbatim>\<open>__update_alpha_1\<close> returns \<open>1/2\<close>, while the mean of the indicator is 0.
\<close>

theorem alpha_1_boundary_counterexample:
  "update_alpha_1 (solver_1x1 1 1 (Fin 1) (Fin (1 / 2)) 0 1) = Fin (1 / 2) \<and>
   support_fraction (solver_1x1 1 1 (Fin 1) (Fin (1 / 2)) 0 1) = Fin 0 \<and>
   update_alpha_1 (solver_1x1 1 1 (Fin 1) (Fin (1 / 2)) 0 1) \<noteq>
     support_fraction (solver_1x1 1 1 (Fin 1) (Fin (1 / 2)) 0 1)"
  by (simp add: update_alpha_1_def support_fraction_def solver_1x1_def mean_def minus_fl_def
      indicator_above_def round64_small)

text \<open>
  Claim C6, amended. For finite doubles \<open>r_1\<close> and a finite float quotient
  \<open>t\<close> of \<^verbatim>\<open>self.l / self.gamma_1\<close>, \<open>alpha_1\<close> is the mean over the coordinates of
  the step value: 1 where \<open>|r_1 i| > t\<close>, \<open>1/2\<close> where \<open>|r_1 i| = t\<close>, 0 below. The
  threshold is the rounded quotient, as the code compares with it. When no coordinate
  equals \<open>t\<close> this is the mean of the indicator of \<open>|r_1 i| > t\<close>, the support fraction.
\<close>

theorem alpha_1_mean_of_steps:
  assumes "l st / gamma_1 st = Fin t" and "r_1 st = map Fin rs" and "list_all representable rs"
  shows "update_alpha_1 st =
           mean (map (\<lambda>a. Fin (if t < \<bar>a\<bar> then 1 else if \<bar>a\<bar> = t then 1 / 2 else 0)) rs) \<and>
         ((\<forall>a \<in> set rs. \<bar>a\<bar> \<noteq> t) \<longrightarrow> update_alpha_1 st = support_fraction st)"
proof (intro conjI impI)
  have t: "representable t" using assms(1) by (rule divide_fl_representable)
  have rs: "\<And>a. a \<in> set rs \<Longrightarrow> representable a" using assms(3) by (simp add: list_all_iff)
  have u: "update_alpha_1 st =
      mean (map (\<lambda>a. heaviside (Fin \<bar>a\<bar> - Fin t) (Fin (1 / 2))) rs)"
    by (simp add: update_alpha_1_def assms(1,2) o_def)
  have "map (\<lambda>a. heaviside (Fin \<bar>a\<bar> - Fin t) (Fin (1 / 2))) rs
      = map (\<lambda>a. Fin (if t < \<bar>a\<bar> then 1 else if \<bar>a\<bar> = t then 1 / 2 else 0)) rs"
  proof (rule map_cong [OF refl])
    fix a assume "a \<in> set rs"
    then show "heaviside (Fin \<bar>a\<bar> - Fin t) (Fin (1 / 2)) =
        Fin (if t < \<bar>a\<bar> then 1 else if \<bar>a\<bar> = t then 1 / 2 else 0)"
      by (intro heaviside_step [OF _ t] rs)
  qed
  then show "update_alpha_1 st =
           mean (map (\<lambda>a. Fin (if t < \<bar>a\<bar> then 1 else if \<bar>a\<bar> = t then 1 / 2 else 0)) rs)"
    by (simp only: u)
  assume h: "\<forall>a \<in> set rs. \<bar>a\<bar> \<noteq> t"
  have "map (\<lambda>a. heaviside (Fin \<bar>a\<bar> - Fin t) (Fin (1 / 2))) rs
      = map (\<lambda>a. indicator_above (Fin \<bar>a\<bar>) (Fin t)) rs"
  proof (rule map_cong [OF refl])
    fix a assume a: "a \<in> set rs"
    then have "\<bar>a\<bar> \<noteq> t" using h by blast
    then show "heaviside (Fin \<bar>a\<bar> - Fin t) (Fin (1 / 2)) = indicator_above (Fin \<bar>a\<bar>) (Fin t)"
      by (intro heaviside_indicator [OF rs [OF a] t])
  qed
  moreover have "support_fraction st = mean (map (\<lambda>a. indicator_above (Fin \<bar>a\<bar>) (Fin t)) rs)"
    by (simp add: support_fraction_def assms(1,2) o_def)
  ultimately show "update_alpha_1 st = support_fraction st"
    by (simp only: u)
qed

text \<open>
  The theorem on the object built with \<open>l = 1\<close> and the sample \<open>r_1 = [2]\<close>, above the
  threshold: \<open>alpha_1\<close> is 1, and equals the support fraction.
\<close>

theorem alpha_1_mean_of_steps_witness:
  "update_alpha_1 (solver_1x1 1 1 (Fin 1) (Fin (1 / 2)) 0 2) = Fin 1 \<and>
   update_alpha_1 (solver_1x1 1 1 (Fin 1) (Fin (1 / 2)) 0 2) =
     support_fraction (solver_1x1 1 1 (Fin 1) (Fin (1 / 2)) 0 2)"
  using alpha_1_mean_of_steps [of "solver_1x1 1 1 (Fin 1) (Fin (1 / 2)) 0 2" 1 "[2]"]
  by (auto simp add: solver_1x1_def mean_def round64_small representable_def)

section \<open>The LMMSE step and the message to it\<close>

lemma iteration_unchanged:
  "l (iteration ud st) = l st" "dumping (iteration ud st) = dumping st"
  "s2 (iteration ud st) = s2 st" "V (iteration ud st) = V st" "VT (iteration ud st) = VT st"
  "y_tilde (iteration ud st) = y_tilde st" "N (iteration ud st) = N st"
  by (simp_all add: iteration_def Let_def)

lemma iteration_alpha_1: "alpha_1 (iteration ud st) = update_alpha_1 st"
  by (simp add: iteration_def Let_def)

lemma iteration_x_hat_1:
  "x_hat_1 (iteration ud st) =
     map2 (\<lambda>old_x new_x. ud old_x new_x (dumping st)) (x_hat_1 st) (update_x_hat_1 st)"
  by (simp add: iteration_def Let_def)

lemma iteration_eta_1:
  "eta_1 (iteration ud st) =
     clip (ud (eta_1 st) (gamma_1 st / alpha_1 (iteration ud st)) (dumping st))
       a_min_bound a_max_bound"
  by (simp add: iteration_def Let_def update_eta_1_def)

lemma iteration_gamma_2:
  "gamma_2 (iteration ud st) =
     clip (eta_1 (iteration ud st) - gamma_1 st) a_min_bound a_max_bound"
  by (simp add: iteration_def Let_def update_gamma_2_def)

lemma iteration_r_2:
  "r_2 (iteration ud st) =
     map2 (\<lambda>x r. (eta_1 (iteration ud st) * x - gamma_1 st * r) / gamma_2 (iteration ud st))
       (x_hat_1 (iteration ud st)) (r_1 st)"
  by (simp add: iteration_def Let_def update_r_2_def)

lemma iteration_d:
  "d (iteration ud st) = map (\<lambda>v. v / (v + gamma_2 (iteration ud st))) (s2 st)"
  by (simp add: iteration_def Let_def update_d_def)

lemma iteration_x_hat_2:
  "x_hat_2 (iteration ud st) =
     map2 (-) (map2 (+) (r_2 (iteration ud st))
                 (matvec (V st) (map2 (*) (d (iteration ud st)) (y_tilde st))))
       (matvec (V st) (map2 (*) (d (iteration ud st)) (matvec (VT st) (r_2 (iteration ud st)))))"
  by (simp add: iteration_def Let_def update_x_hat_2_def)

lemma iteration_alpha_2: "alpha_2 (iteration ud st) = Fin 1 - mean (d (iteration ud st))"
  by (simp add: iteration_def Let_def update_alpha_2_def)

lemma iteration_eta_2:
  "eta_2 (iteration ud st) = gamma_2 (iteration ud st) / alpha_2 (iteration ud st)"
  by (simp add: iteration_def Let_def update_eta_2_def)

lemma iteration_gamma_1:
  "gamma_1 (iteration ud st) =
     clip (eta_2 (iteration ud st) - gamma_2 (iteration ud st)) a_min_bound a_max_bound"
  by (simp add: iteration_def Let_def update_gamma_1_def)

lemma iteration_r_1:
  "r_1 (iteration ud st) =
     map2 (\<lambda>x r. (eta_2 (iteration ud st) * x - gamma_2 (iteration ud st) * r)
                    / gamma_1 (iteration ud st))
       (x_hat_2 (iteration ud st)) (r_2 (iteration ud st))"
  by (simp add: iteration_def Let_def update_r_1_def)


lemmas clip_defs = clip_def fl_maximum_def fl_minimum_def a_min_bound_value a_max_bound_value

lemma clip_bounds_nonzero: "clip a a_min_bound a_max_bound \<noteq> Fin 0"
  by (cases a) (auto simp add: clip_defs split: if_splits)

lemma clip_in_bounds:
  "clip a a_min_bound a_max_bound = NaN \<or> in_bounds (clip a a_min_bound a_max_bound)"
  by (cases a) (auto simp add: clip_defs split: if_splits)

lemma in_bounds_Fin: "in_bounds a \<Longrightarrow> \<exists>g. a = Fin g \<and> 1 / 10 ^ 9 \<le> g \<and> g \<le> 10 ^ 9"
  by (cases a) simp_all

lemma clip_not_nan:
  "clip a a_min_bound a_max_bound \<noteq> NaN \<Longrightarrow>
   \<exists>g. clip a a_min_bound a_max_bound = Fin g \<and> 1 / 10 ^ 9 \<le> g \<and> g \<le> 10 ^ 9"
  using clip_in_bounds [of a] in_bounds_Fin by blast

lemma nan_absorbs:
  "a + NaN = NaN" "NaN + a = NaN" "a * NaN = NaN" "NaN * a = NaN"
  "a / NaN = NaN" "NaN / a = NaN" "a - NaN = NaN" "NaN - a = NaN"
  by (cases a; simp add: minus_fl_def)+

text \<open>
  Claim C1. After a pass through the loop body the shrinkage vector is
  \<open>s2 / (s2 + gamma_2)\<close> entry by entry, over the whole vector \<open>s2\<close>, with the
  \<open>gamma_2\<close> of this pass; \<open>x_hat_2\<close> is
  \<open>r_2 + V (d * y_tilde) - V (d * (VT r_2))\<close> on the \<open>r_2\<close> and \<open>d\<close> of this
  pass; \<open>alpha_2\<close> is \<open>1 - mean d\<close> and \<open>eta_2\<close> is \<open>gamma_2 / alpha_2\<close>. None of the
  three goes through the dumping function, whereas \<open>x_hat_1\<close> and \<open>eta_1\<close> are the
  dumping function's results (\<open>eta_1\<close> clipped afterwards).
\<close>

theorem lmmse_step_undamped:
  "d (iteration ud st) = map (\<lambda>v. v / (v + gamma_2 (iteration ud st))) (s2 st) \<and>
   length (d (iteration ud st)) = length (s2 st) \<and>
   x_hat_2 (iteration ud st) =
     map2 (-) (map2 (+) (r_2 (iteration ud st))
                 (matvec (V st) (map2 (*) (d (iteration ud st)) (y_tilde st))))
       (matvec (V st) (map2 (*) (d (iteration ud st)) (matvec (VT st) (r_2 (iteration ud st))))) \<and>
   alpha_2 (iteration ud st) = Fin 1 - mean (d (iteration ud st)) \<and>
   eta_2 (iteration ud st) = gamma_2 (iteration ud st) / alpha_2 (iteration ud st) \<and>
   x_hat_1 (iteration ud st) =
     map2 (\<lambda>old_x new_x. ud old_x new_x (dumping st)) (x_hat_1 st) (update_x_hat_1 st) \<and>
   eta_1 (iteration ud st) =
     clip (ud (eta_1 st) (gamma_1 st / alpha_1 (iteration ud st)) (dumping st))
       a_min_bound a_max_bound"
  by (simp add: iteration_def Let_def update_d_def update_x_hat_2_def update_alpha_2_def
      update_eta_2_def update_eta_1_def)

text \<open>
  Claim C7. In a pass through the loop body \<open>gamma_2\<close> is \<open>eta_1 - gamma_1\<close> clipped
  to the two bounds, \<open>r_2\<close> is \<open>(eta_1 * x_hat_1 - gamma_1 * r_1) / gamma_2\<close> with
  this clipped \<open>gamma_2\<close>, and the clipped \<open>gamma_2\<close> is never zero: the division
  is not a division by zero.
\<close>

theorem gamma_2_clipped_before_r_2:
  "gamma_2 (iteration ud st) =
     clip (eta_1 (iteration ud st) - gamma_1 st) a_min_bound a_max_bound \<and>
   r_2 (iteration ud st) =
     map2 (\<lambda>x r. (eta_1 (iteration ud st) * x - gamma_1 st * r) / gamma_2 (iteration ud st))
       (x_hat_1 (iteration ud st)) (r_1 st) \<and>
   gamma_2 (iteration ud st) \<noteq> Fin 0"
  by (simp add: iteration_def Let_def update_r_2_def update_gamma_2_def clip_bounds_nonzero)

section \<open>The clipped scalars and the shrinkage\<close>

lemma round64_dyadic:
  "round64 4294967296 = Fin 4294967296"
  "round64 (8589934593 / 2) = Fin (8589934593 / 2)"
  "round64 (8589934591 / 8589934592) = Fin (8589934591 / 8589934592)"
  "round64 (1 / 8589934592) = Fin (1 / 8589934592)"
  using round64_int_div_pow [of 4294967296 0] round64_int_div_pow [of 8589934593 1]
    round64_int_div_pow [of 8589934591 33] round64_int_div_pow [of 1 33]
  by simp_all

lemma regular_1x1_alpha_1:
  "alpha_1 (iteration ud (solver_1x1 65536 1 (Fin 1) (Fin (1 / 2)) 0 1)) = Fin (1 / 2)"
  by (simp add: iteration_alpha_1 update_alpha_1_def solver_1x1_def mean_def minus_fl_def
      round64_small)

lemma regular_1x1_eta_1:
  "eta_1 (iteration (update_dumping b) (solver_1x1 65536 1 (Fin 1) (Fin (1 / 2)) 0 1)) = Fin (3 / 2)"
  by (simp add: iteration_eta_1 regular_1x1_alpha_1)
    (simp add: solver_1x1_def update_dumping_def minus_fl_def clip_defs round64_small)

lemma regular_1x1_gamma_2:
  "gamma_2 (iteration (update_dumping b) (solver_1x1 65536 1 (Fin 1) (Fin (1 / 2)) 0 1)) = Fin (1 / 2)"
  by (simp add: iteration_gamma_2 regular_1x1_eta_1)
    (simp add: solver_1x1_def minus_fl_def clip_defs round64_small)

lemma regular_1x1_quotient:
  "round64 (8589934592 / 8589934593) = Fin (8589934591 / 8589934592)"
  using round64_eval_neg [of 1 "8589934592 / 8589934593" 9007199253692416] by simp

lemma regular_1x1_d:
  "d (iteration (update_dumping b) (solver_1x1 65536 1 (Fin 1) (Fin (1 / 2)) 0 1))
     = [Fin (8589934591 / 8589934592)]"
  by (simp add: iteration_d regular_1x1_gamma_2)
    (simp add: solver_1x1_def round64_dyadic regular_1x1_quotient)

lemma regular_1x1_eta_2:
  "eta_2 (iteration (update_dumping b) (solver_1x1 65536 1 (Fin 1) (Fin (1 / 2)) 0 1))
     = Fin 4294967296"
  by (simp add: iteration_eta_2 iteration_alpha_2 regular_1x1_gamma_2 regular_1x1_d mean_def
      minus_fl_def round64_dyadic)

text \<open>
  Claim C2, as stated: after a pass through the loop body each of \<open>gamma_1\<close>,
  \<open>gamma_2\<close>, \<open>eta_1\<close>, \<open>eta_2\<close> lies between \<^verbatim>\<open>1e-9\<close> and \<^verbatim>\<open>1e9\<close>. It fails for
  \<open>eta_2\<close>, which is assigned \<open>gamma_2 / alpha_2\<close> without a clip. On the object
  built from \<open>A = [[65536]]\<close>, \<open>y = [1]\<close>, \<open>l = 1\<close>, coefficient \<open>1/2\<close> and the
  samples \<open>x_hat_1 = [0]\<close>, \<open>r_1 = [1]\<close>, the first pass gives \<open>alpha_1 = 1/2\<close>,
  \<open>eta_1 = 3/2\<close>, \<open>gamma_2 = 1/2\<close>, \<open>d = [1 - 2^-33]\<close> (the quotient
  \<open>2^32 / (2^32 + 1/2)\<close> rounded), \<open>alpha_2 = 2^-33\<close> and \<open>eta_2 = 2^32\<close>, above
  \<^verbatim>\<open>1e9\<close>, whichever value the coefficient weighs.
\<close>

theorem eta_2_out_of_bounds_counterexample:
  "\<not> in_bounds (eta_2 (iteration (update_dumping True)
                        (solver_1x1 65536 1 (Fin 1) (Fin (1 / 2)) 0 1))) \<and>
   \<not> in_bounds (eta_2 (iteration (update_dumping False)
                        (solver_1x1 65536 1 (Fin 1) (Fin (1 / 2)) 0 1)))"
  by (simp add: regular_1x1_eta_2)

text \<open>
  Claim C2, amended. After a pass through the loop body each of \<open>eta_1\<close>, \<open>gamma_2\<close>
  and \<open>gamma_1\<close> lies between \<^verbatim>\<open>1e-9\<close> and \<^verbatim>\<open>1e9\<close> or is NaN (\<^verbatim>\<open>np.clip\<close> hands
  NaN through), for every object, coefficient and dumping function; \<open>eta_2\<close> is the
  quotient \<open>gamma_2 / (1 - mean d)\<close>, not clipped.
\<close>

theorem clipped_scalars_in_bounds:
  "(eta_1 (iteration ud st) = NaN \<or> in_bounds (eta_1 (iteration ud st))) \<and>
   (gamma_2 (iteration ud st) = NaN \<or> in_bounds (gamma_2 (iteration ud st))) \<and>
   (gamma_1 (iteration ud st) = NaN \<or> in_bounds (gamma_1 (iteration ud st))) \<and>
   eta_2 (iteration ud st) = gamma_2 (iteration ud st) / (Fin 1 - mean (d (iteration ud st)))"
  by (simp add: iteration_def Let_def clip_in_bounds update_eta_2_def update_alpha_2_def)

lemma representable_nat: "n < 2 ^ 53 \<Longrightarrow> representable (real n)"
  using representable_int_pow [of "int n" 0] by simp

lemma representable_one: "representable 1"
  using representable_nat [of 1] by simp

lemma unit_closedE:
  assumes "unit_closed a"
  obtains x where "a = Fin x" "0 \<le> x" "x \<le> 1"
  using assms by (cases a) simp_all

lemma vsum_unit:
  assumes "list_all unit_closed xs" and "length xs < 2 ^ 53"
  shows "\<exists>t. vsum xs = Fin t \<and> 0 \<le> t \<and> t \<le> real (length xs)"
  using assms
proof (induction xs)
  case Nil
  then show ?case by simp
next
  case (Cons a xs)
  then obtain t where t: "vsum xs = Fin t" "0 \<le> t" "t \<le> real (length xs)" by auto
  obtain x where x: "a = Fin x" "0 \<le> x" "x \<le> 1"
    using Cons.prems(1) by (auto elim: unit_closedE)
  have r: "representable (real (length (a # xs)))" using Cons.prems(2) by (rule representable_nat)
  have "0 \<le> x + t" "x + t \<le> real (length (a # xs))" using t x by simp_all
  from round64_between [OF representable_zero r this]
  obtain z where "round64 (x + t) = Fin z" "0 \<le> z" "z \<le> real (length (a # xs))" by blast
  then show ?case by (simp add: t(1) x(1))
qed

lemma mean_unit:
  assumes "list_all unit_closed xs" and "length xs < 2 ^ 53" and "xs \<noteq> []"
  shows "unit_closed (mean xs)"
proof -
  obtain t where t: "vsum xs = Fin t" "0 \<le> t" "t \<le> real (length xs)"
    using vsum_unit [OF assms(1,2)] by blast
  have n: "0 < real (length xs)" using assms(3) by simp
  have "0 \<le> t / real (length xs)" "t / real (length xs) \<le> 1" using t n by simp_all
  from round64_between [OF representable_zero representable_one this]
  obtain z where "round64 (t / real (length xs)) = Fin z" "0 \<le> z" "z \<le> 1" by blast
  then show ?thesis using n by (simp add: mean_def t(1))
qed

lemma clip_result: "clip x lo hi = Fin g \<Longrightarrow> x = Fin g \<or> lo = Fin g \<or> hi = Fin g"
  by (auto simp add: clip_def fl_maximum_def fl_minimum_def split: if_splits)

lemma clip_representable:
  assumes "clip (a - b) a_min_bound a_max_bound = Fin g"
  shows "representable g"
  using clip_result [OF assms]
  by (auto simp add: a_min_bound_def a_max_bound_def
      intro: minus_fl_representable round64_representable)

lemma shrinkage_entry:
  assumes g: "representable g" "0 < g" and q: "representable q" "0 \<le> q"
  shows "unit_closed (Fin q / round64 (q + g))"
proof -
  have "g \<le> q + g" using q(2) by simp
  from round64_lower [OF g(1) this] show ?thesis
  proof cases
    case 1
    then show ?thesis by simp
  next
    case (2 z)
    have "q \<le> q + g" using g(2) by simp
    from round64_lower [OF q(1) this] have qz: "q \<le> z" using 2(1) by auto
    have zpos: "0 < z" using 2(2) g(2) by simp
    have "0 \<le> q / z" "q / z \<le> 1" using qz zpos q(2) by simp_all
    from round64_between [OF representable_zero representable_one this]
    obtain w where "round64 (q / z) = Fin w" "0 \<le> w" "w \<le> 1" by blast
    then show ?thesis using zpos by (simp add: 2(1))
  qed
qed

text \<open>
  The first pass on an object built with \<open>l = 1\<close>, coefficient \<open>1/2\<close> and the samples
  \<open>x_hat_1 = [0]\<close>, \<open>r_1 = [2]\<close>, whatever the matrix: \<open>alpha_1 = 1\<close>, \<open>eta_1\<close>
  stays 1 and \<open>gamma_2\<close> is clipped from 0 to the lower bound.
\<close>

lemma round64_a_min:
  "round64 (4835703278458517 / 4835703278458516698824704)
     = Fin (4835703278458517 / 4835703278458516698824704)"
  using round64_int_div_pow [of 4835703278458517 82] by simp

lemma above_threshold_first:
  "alpha_1 (iteration (update_dumping b) (solver_1x1 a 1 (Fin 1) (Fin (1 / 2)) 0 2)) = Fin 1"
  "x_hat_1 (iteration (update_dumping b) (solver_1x1 a 1 (Fin 1) (Fin (1 / 2)) 0 2)) = [Fin (1 / 2)]"
  "eta_1 (iteration (update_dumping b) (solver_1x1 a 1 (Fin 1) (Fin (1 / 2)) 0 2)) = Fin 1"
  "gamma_2 (iteration (update_dumping b) (solver_1x1 a 1 (Fin 1) (Fin (1 / 2)) 0 2))
     = Fin (4835703278458517 / 2 ^ 82)"
proof -
  let ?st = "solver_1x1 a 1 (Fin 1) (Fin (1 / 2)) 0 2"
  let ?st1 = "iteration (update_dumping b) ?st"
  show a1: "alpha_1 ?st1 = Fin 1"
    by (simp add: iteration_alpha_1 update_alpha_1_def solver_1x1_def mean_def minus_fl_def
        round64_small)
  show "x_hat_1 ?st1 = [Fin (1 / 2)]"
    by (simp add: iteration_x_hat_1 update_x_hat_1_def solver_1x1_def update_dumping_def
        minus_fl_def round64_small)
  show e1: "eta_1 ?st1 = Fin 1"
    by (simp add: iteration_eta_1 a1)
      (simp add: solver_1x1_def update_dumping_def minus_fl_def clip_defs round64_small)
  show "gamma_2 ?st1 = Fin (4835703278458517 / 2 ^ 82)"
    by (simp add: iteration_gamma_2 e1) (simp add: solver_1x1_def minus_fl_def clip_defs)
qed

lemma singular_1x1_first:
  "gamma_1 (iteration (update_dumping b) (solver_1x1 0 1 (Fin 1) (Fin (1 / 2)) 0 2))
     = Fin (4835703278458517 / 2 ^ 82)"
  "r_1 (iteration (update_dumping b) (solver_1x1 0 1 (Fin 1) (Fin (1 / 2)) 0 2)) = [NaN]"
proof -
  let ?st = "solver_1x1 0 1 (Fin 1) (Fin (1 / 2)) 0 2"
  let ?st1 = "iteration (update_dumping b) ?st"
  note f = above_threshold_first [of b 0]
  obtain c where r2: "r_2 ?st1 = [c]"
    by (simp add: iteration_r_2 f) (simp add: solver_1x1_def)
  have d1: "d ?st1 = [Fin 0]"
    by (simp add: iteration_d f) (simp add: solver_1x1_def round64_a_min)
  have x2: "x_hat_2 ?st1 = [NaN]"
    by (simp add: iteration_x_hat_2 r2 d1)
      (simp add: solver_1x1_def matvec_def dot_def signed_inf_def nan_absorbs)
  have a2: "alpha_2 ?st1 = Fin 1"
    by (simp add: iteration_alpha_2 d1 mean_def minus_fl_def round64_small)
  have e2: "eta_2 ?st1 = Fin (4835703278458517 / 2 ^ 82)"
    using round64_a_min by (simp add: iteration_eta_2 a2 f)
  show g1: "gamma_1 ?st1 = Fin (4835703278458517 / 2 ^ 82)"
    by (simp add: iteration_gamma_1 e2 f) (simp add: minus_fl_def clip_defs)
  show "r_1 ?st1 = [NaN]"
    by (simp add: iteration_r_1 x2 r2 nan_absorbs)
qed

lemma singular_1x1_second:
  "gamma_2 (iteration (update_dumping b) (iteration (update_dumping b) (solver_1x1 0 1 (Fin 1) (Fin (1 / 2)) 0 2))) = NaN"
  "d (iteration (update_dumping b) (iteration (update_dumping b) (solver_1x1 0 1 (Fin 1) (Fin (1 / 2)) 0 2))) = [NaN]"
  "alpha_2 (iteration (update_dumping b) (iteration (update_dumping b) (solver_1x1 0 1 (Fin 1) (Fin (1 / 2)) 0 2))) = NaN"
  "eta_2 (iteration (update_dumping b) (iteration (update_dumping b) (solver_1x1 0 1 (Fin 1) (Fin (1 / 2)) 0 2))) = NaN"
proof -
  let ?st = "solver_1x1 0 1 (Fin 1) (Fin (1 / 2)) 0 2"
  let ?st1 = "iteration (update_dumping b) ?st"
  let ?st2 = "iteration (update_dumping b) ?st1"
  have c: "l ?st1 = Fin 1" "dumping ?st1 = Fin (1 / 2)" "s2 ?st1 = [Fin 0]"
    by (simp_all add: iteration_unchanged) (simp_all add: solver_1x1_def)
  have a1: "alpha_1 ?st2 = NaN"
    using iteration_alpha_1 [of "update_dumping b" ?st1]
    by (simp add: update_alpha_1_def singular_1x1_first c mean_def nan_absorbs)
  have e1: "eta_1 ?st2 = NaN"
    using iteration_eta_1 [of "update_dumping b" ?st1]
    by (simp add: a1 c update_dumping_def nan_absorbs clip_defs)
  show g2: "gamma_2 ?st2 = NaN"
    using iteration_gamma_2 [of "update_dumping b" ?st1]
    by (simp add: e1 nan_absorbs clip_defs)
  show d2: "d ?st2 = [NaN]"
    using iteration_d [of "update_dumping b" ?st1]
    by (simp add: g2 c nan_absorbs)
  show a2: "alpha_2 ?st2 = NaN"
    using iteration_alpha_2 [of "update_dumping b" ?st1]
    by (simp add: d2 mean_def nan_absorbs)
  show "eta_2 ?st2 = NaN"
    using iteration_eta_2 [of "update_dumping b" ?st1]
    by (simp add: a2 g2)
qed

lemma absorbed_sum:
  "round64 (16777216 + 4835703278458517 / 2 ^ 82) = Fin 16777216"
  using round64_eval_pos [of 24 "16777216 + 4835703278458517 / 2 ^ 82" "2 ^ 52"] by simp

lemma absorbing_1x1:
  "d (iteration (update_dumping b) (solver_1x1 4096 1 (Fin 1) (Fin (1 / 2)) 0 2)) = [Fin 1]"
  "alpha_2 (iteration (update_dumping b) (solver_1x1 4096 1 (Fin 1) (Fin (1 / 2)) 0 2)) = Fin 0"
  "eta_2 (iteration (update_dumping b) (solver_1x1 4096 1 (Fin 1) (Fin (1 / 2)) 0 2)) = PInf"
proof -
  let ?st = "solver_1x1 4096 1 (Fin 1) (Fin (1 / 2)) 0 2"
  let ?st1 = "iteration (update_dumping b) ?st"
  note f = above_threshold_first [of b 4096]
  have s: "round64 16777216 = Fin 16777216" using round64_int_div_pow [of 16777216 0] by simp
  show d1: "d ?st1 = [Fin 1]"
    using absorbed_sum by (simp add: iteration_d f) (simp add: solver_1x1_def s round64_small)
  show a2: "alpha_2 ?st1 = Fin 0"
    by (simp add: iteration_alpha_2 d1 mean_def minus_fl_def round64_small)
  show "eta_2 ?st1 = PInf"
    by (simp add: iteration_eta_2 a2 f signed_inf_def)
qed

text \<open>
  Claim C10, as stated: in every pass, as \<open>gamma_2\<close> has been clipped, every entry of
  \<open>d\<close> lies in \<open>[0, 1)\<close>, \<open>alpha_2\<close> is positive and \<open>eta_2\<close> is positive and
  finite, for finite nonnegative \<open>s2\<close>. It fails in two ways. In the second pass on the
  object built from the rank-deficient \<open>A = [[0]]\<close>, \<open>y = [1]\<close> (where \<open>s2 = [0]\<close>,
  and \<open>y_tilde\<close> is \<open>+inf\<close>) the clip hands NaN through, and \<open>gamma_2\<close>, \<open>d\<close>,
  \<open>alpha_2\<close> and \<open>eta_2\<close> are NaN. In the first pass on the object built from
  \<open>A = [[4096]]\<close>, \<open>y = [1]\<close>, \<open>gamma_2\<close> is the lower bound, the sum
  \<open>s2 + gamma_2 = 2^24 + 1e-9\<close> rounds to \<open>2^24\<close>, and \<open>d = [1]\<close>, \<open>alpha_2 = 0\<close>,
  \<open>eta_2 = +inf\<close>.
\<close>

theorem shrinkage_counterexample:
  "\<not> list_all unit_half_open
       (d (iteration (update_dumping True) (iteration (update_dumping True)
            (solver_1x1 0 1 (Fin 1) (Fin (1 / 2)) 0 2)))) \<and>
   \<not> positive_finite
       (eta_2 (iteration (update_dumping True) (iteration (update_dumping True)
            (solver_1x1 0 1 (Fin 1) (Fin (1 / 2)) 0 2)))) \<and>
   \<not> list_all unit_half_open
       (d (iteration (update_dumping False) (iteration (update_dumping False)
            (solver_1x1 0 1 (Fin 1) (Fin (1 / 2)) 0 2)))) \<and>
   \<not> positive_finite
       (eta_2 (iteration (update_dumping False) (iteration (update_dumping False)
            (solver_1x1 0 1 (Fin 1) (Fin (1 / 2)) 0 2)))) \<and>
   in_bounds (gamma_2 (iteration (update_dumping True)
                (solver_1x1 4096 1 (Fin 1) (Fin (1 / 2)) 0 2))) \<and>
   d (iteration (update_dumping True) (solver_1x1 4096 1 (Fin 1) (Fin (1 / 2)) 0 2))
     = [Fin 1] \<and>
   alpha_2 (iteration (update_dumping True) (solver_1x1 4096 1 (Fin 1) (Fin (1 / 2)) 0 2))
     = Fin 0 \<and>
   eta_2 (iteration (update_dumping True) (solver_1x1 4096 1 (Fin 1) (Fin (1 / 2)) 0 2))
     = PInf \<and>
   in_bounds (gamma_2 (iteration (update_dumping False)
                (solver_1x1 4096 1 (Fin 1) (Fin (1 / 2)) 0 2))) \<and>
   d (iteration (update_dumping False) (solver_1x1 4096 1 (Fin 1) (Fin (1 / 2)) 0 2))
     = [Fin 1] \<and>
   alpha_2 (iteration (update_dumping False) (solver_1x1 4096 1 (Fin 1) (Fin (1 / 2)) 0 2))
     = Fin 0 \<and>
   eta_2 (iteration (update_dumping False) (solver_1x1 4096 1 (Fin 1) (Fin (1 / 2)) 0 2))
     = PInf"
  by (simp add: singular_1x1_second absorbing_1x1 above_threshold_first)

text \<open>
  Claim C10, amended. In a pass whose clipped \<open>gamma_2\<close> is not NaN, on an object with
  at least one and fewer than \<open>2^53\<close> coordinates whose \<open>s2\<close> holds finite nonnegative
  doubles: \<open>gamma_2\<close> lies between \<^verbatim>\<open>1e-9\<close> and \<^verbatim>\<open>1e9\<close>; every entry of \<open>d\<close> lies
  in \<open>[0, 1]\<close>, the value 1 being taken where \<open>s2 + gamma_2\<close> rounds to \<open>s2\<close>;
  \<open>alpha_2\<close> lies in \<open>[0, 1]\<close>; and \<open>eta_2 = gamma_2 / alpha_2\<close> is a positive number
  or, where \<open>alpha_2\<close> is 0, \<open>+inf\<close>: numpy's division by zero does not raise. The
  bounds hold for every order in which the mean adds the entries up.
\<close>

theorem shrinkage_at_most_one:
  assumes "gamma_2 (iteration ud st) \<noteq> NaN" and "s2 st = map Fin qs" and "qs \<noteq> []"
    and "length qs < 2 ^ 53" and "\<forall>q \<in> set qs. 0 \<le> q \<and> representable q"
  shows "in_bounds (gamma_2 (iteration ud st)) \<and>
         list_all unit_closed (d (iteration ud st)) \<and>
         unit_closed (alpha_2 (iteration ud st)) \<and>
         positive_or_inf (eta_2 (iteration ud st))"
proof -
  let ?st' = "iteration ud st"
  have c: "gamma_2 ?st' = clip (eta_1 ?st' - gamma_1 st) a_min_bound a_max_bound"
    by (rule iteration_gamma_2)
  obtain g where g: "gamma_2 ?st' = Fin g" "1 / 10 ^ 9 \<le> g" "g \<le> 10 ^ 9"
    using clip_not_nan [of "eta_1 ?st' - gamma_1 st"] assms(1) c by auto
  have gr: "representable g" using c g(1) clip_representable by metis
  have gpos: "0 < g" using g(2) by (rule less_le_trans [rotated]) simp
  have dd: "d ?st' = map (\<lambda>q. Fin q / round64 (q + g)) qs"
    by (simp add: iteration_d g(1) assms(2) o_def)
  have du: "list_all unit_closed (d ?st')"
    unfolding dd list_all_iff
  proof
    fix e assume "e \<in> set (map (\<lambda>q. Fin q / round64 (q + g)) qs)"
    then obtain q where q: "q \<in> set qs" "e = Fin q / round64 (q + g)" by auto
    then have "representable q" "0 \<le> q" using assms(5) by auto
    from shrinkage_entry [OF gr gpos this] show "unit_closed e" by (simp only: q(2))
  qed
  have len: "length (d ?st') < 2 ^ 53" "d ?st' \<noteq> []" using assms(3,4) by (simp_all add: dd)
  have "unit_closed (mean (d ?st'))" using du len by (rule mean_unit)
  then obtain m where m: "mean (d ?st') = Fin m" "0 \<le> m" "m \<le> 1" by (rule unit_closedE)
  have "0 \<le> 1 - m" "1 - m \<le> 1" using m by simp_all
  from round64_between [OF representable_zero representable_one this]
  obtain a where a: "round64 (1 - m) = Fin a" "0 \<le> a" "a \<le> 1" by blast
  have a2: "alpha_2 ?st' = Fin a" by (simp add: iteration_alpha_2 m(1) minus_fl_def a(1))
  have e2: "eta_2 ?st' = Fin g / Fin a" by (simp only: iteration_eta_2 a2 g(1))
  have "positive_or_inf (Fin g / Fin a)"
  proof (cases "a = 0")
    case True
    then show ?thesis using gpos by (simp add: signed_inf_def)
  next
    case False
    then have apos: "0 < a" using a(2) by simp
    then have "g \<le> g / a" using a(3) gpos by (simp add: field_simps)
    from round64_lower [OF gr this] show ?thesis
      using False gpos by cases auto
  qed
  then show ?thesis using du a2 a(2,3) e2 g by simp
qed

text \<open>
  The theorem on the first pass of the object built from \<open>A = [[65536]]\<close>, where
  \<open>gamma_2 = 1/2\<close> and \<open>s2 = [2^32]\<close>.
\<close>

theorem shrinkage_at_most_one_witness:
  "in_bounds
     (gamma_2 (iteration (update_dumping True) (solver_1x1 65536 1 (Fin 1) (Fin (1 / 2)) 0 1))) \<and>
   list_all unit_closed
     (d (iteration (update_dumping True) (solver_1x1 65536 1 (Fin 1) (Fin (1 / 2)) 0 1))) \<and>
   unit_closed
     (alpha_2 (iteration (update_dumping True) (solver_1x1 65536 1 (Fin 1) (Fin (1 / 2)) 0 1))) \<and>
   positive_or_inf
     (eta_2 (iteration (update_dumping True) (solver_1x1 65536 1 (Fin 1) (Fin (1 / 2)) 0 1)))"
  using shrinkage_at_most_one [of "update_dumping True"
      "solver_1x1 65536 1 (Fin 1) (Fin (1 / 2)) 0 1" "[4294967296]"]
    regular_1x1_gamma_2 [of True]
  by (simp add: solver_1x1_def round64_dyadic representable_def)

section \<open>Properties of the driver\<close>

text \<open>
  Claim C8. With \<open>max_iteration = 0\<close> the loop body never runs: \<open>solve\<close> returns the
  \<open>x_hat_1\<close> the object had, leaves the object as it was, and prints the lines of the
  branch for a run that did not converge, with the initial \<open>abs_diff = 9999\<close> and
  \<open>iteration_index + 1 = 10000\<close>. The model of \<open>solve\<close> has no error result, as no
  statement on this path raises.
\<close>

theorem solve_zero_iterations:
  "solve ud 0 tolerance message st =
     (x_hat_1 st, st,
      [[Txt ''does not converged.''],
       [Txt ''abs_diff='', Flo (Fin 9999)],
       [Txt ''estimate norm='', Flo (linalg_norm (x_hat_1 st))]] @
      (if linalg_norm (x_hat_1 st) \<noteq> Fin 0
       then [[Txt ''relative diff= '', Flo (Fin 9999 / linalg_norm (x_hat_1 st))]]
       else []) @
      [[Txt ''iteration num='', Intg 10000],
       []])"
  by (simp add: solve_def not_converged_lines_def)

lemma loop_body_core:
  assumes "run_core rn = run_core rn'"
  shows "fst (loop_body ud tol m i rn) = fst (loop_body ud tol m' i rn')"
    and "run_core (snd (loop_body ud tol m i rn)) = run_core (snd (loop_body ud tol m' i rn'))"
  using assms by (simp_all add: loop_body_def run_core_def Let_def)

lemma for_range_core:
  "run_core rn = run_core rn' \<Longrightarrow>
   run_core (for_range ud tol m is rn) = run_core (for_range ud tol m' is rn')"
proof (induction "is" arbitrary: rn rn')
  case Nil
  then show ?case by simp
next
  case (Cons i rest)
  obtain b1 q1 where e1: "loop_body ud tol m i rn = (b1, q1)"
    by (cases "loop_body ud tol m i rn")
  obtain b2 q2 where e2: "loop_body ud tol m' i rn' = (b2, q2)"
    by (cases "loop_body ud tol m' i rn'")
  from loop_body_core[OF Cons.prems, of ud tol m i m'] e1 e2
  have b: "b1 = b2" and c: "run_core q1 = run_core q2" by simp_all
  show ?case
  proof (cases b1)
    case True
    then show ?thesis using e1 e2 b c by simp
  next
    case False
    then show ?thesis using e1 e2 b Cons.IH[OF c] by simp
  qed
qed

text \<open>
  Claim C9. Two calls of \<open>solve\<close> on the same object with the same \<open>max_iteration\<close>
  and \<open>tolerance\<close>, one with \<open>message\<close> true and one with \<open>message\<close> false, return
  the same vector and leave the same object: \<open>message\<close> reaches only the printed lines.
\<close>

theorem message_only_prints:
  "fst (solve ud max_iteration tolerance True st) =
     fst (solve ud max_iteration tolerance False st) \<and>
   fst (snd (solve ud max_iteration tolerance True st)) =
     fst (snd (solve ud max_iteration tolerance False st))"
proof -
  let ?rn0 = "\<lparr>obj = st, convergence_flag = False, abs_diff = Fin 9999,
               iteration_index = 9999, printed = []\<rparr>"
  have "run_core (for_range ud tolerance True (map int [0..<nat max_iteration]) ?rn0)
      = run_core (for_range ud tolerance False (map int [0..<nat max_iteration]) ?rn0)"
    by (rule for_range_core) simp
  then show ?thesis by (simp add: solve_def Let_def run_core_def)
qed

end

